theory Spec2Isabelle
  imports Complex_Main "HOL-Library.Sublist"
begin

section \<open>Shared data: errors, times, intents, retrieval results\<close>

text \<open>
  JavaScript exceptions are values of \<open>error\<close>; a function that can throw returns
  \<open>error + 'a\<close> with \<open>Inl\<close> for the exception. A \<open>Date\<close> is its number of
  milliseconds (an \<open>int\<close>), so that \<open>now - session.lastActivity\<close> is integer subtraction.
  Numbers that the code treats as similarity scores and confidences are IEEE doubles in
  the source and \<open>real\<close> here: the model is the exact-arithmetic reading of the code.
  A \<open>string\<close> stands for a JavaScript string, one \<open>char\<close> per code unit.
  Each \<open>async\<close> function is modelled as one sequential run: what the external services
  answer, what the clock shows and what \<open>uuidv4()\<close> returns are arguments, and no other
  request runs between two steps.
\<close>

datatype error =
    SessionNotFound
  | TypeError
  | SyntaxError
  | ProviderFailure string
  | EmbeddingError error
  | GenerationError error
  | IndexFailure string
  | NotInitialized
  | NoTextExtracted
  | UnsupportedType string
  | FileError string
  | PdfError
  | TextFileError
  | DocxError

type_synonym time = int

text \<open>
  The value \<open>JSON.parse\<close> hands to \<open>classifyIntent\<close>'s caller. \<open>IntentNull\<close> is the
  parsed value \<open>null\<close>, on which every property access throws; any other parsed value
  is read through its two properties only, \<open>None\<close> standing for a property that is
  absent (\<open>undefined\<close>). A \<open>categoria\<close> that is not a string and a \<open>confianza\<close> that
  is not a number are outside this type.
\<close>

datatype intent = IntentNull | Intent "string option" "real option"

text \<open>
  A document category as the chat service hands it to the retriever: the name that the
  table of \<open>mapIntentToCategory\<close> holds under the intent (or the name a caller passes),
  or \<open>Inherited k\<close>, the value that the table inherits under the key \<open>k\<close> (a function,
  or the prototype object), which is not a string and is truthy.
\<close>

datatype category = Category string | Inherited string

record metadata =
  md_documentId :: string
  md_filename :: string
  md_chunkIndex :: nat
  md_text :: string
  md_title :: string
  md_category :: string
  md_tags :: "string list"
  md_uploadedAt :: time
  md_fileSize :: nat
  md_chunkSize :: nat

text \<open>An entry of \<open>response.matches\<close>, as the vector index returns it.\<close>

record match =
  mt_id :: string
  mt_score :: real
  mt_metadata :: "metadata option"

text \<open>An entry of the array \<open>searchDocuments\<close> returns.\<close>

record search_result =
  sr_id :: string
  sr_score :: real
  sr_metadata :: "metadata option"
  sr_text :: string

datatype role = User | Assistant

record source_ref =
  src_documentId :: "string option"
  src_filename :: "string option"
  src_score :: real

record message =
  msg_id :: string
  msg_role :: role
  msg_content :: string
  msg_timestamp :: time
  msg_intent :: "intent option"
  msg_sources :: "source_ref list option"
  msg_confidence :: "real option"

section \<open>Strings\<close>

text \<open>
  The white space that \<open>String.prototype.trim\<close> removes, for code units below 256:
  tab, line feed, vertical tab, form feed, carriage return, space and the no-break space.
\<close>

definition is_ws :: "char \<Rightarrow> bool" where
  "is_ws c = (of_char c \<in> {9, 10, 11, 12, 13, 32, 160 :: nat})"

definition trim :: "string \<Rightarrow> string" where
  "trim s = rev (dropWhile is_ws (rev (dropWhile is_ws s)))"

text \<open>\<open>xs.slice(-n)\<close> for \<open>n > 0\<close>: the last \<open>n\<close> elements, all of them when there are fewer.\<close>

definition slice_last :: "nat \<Rightarrow> 'a list \<Rightarrow> 'a list" where
  "slice_last n xs = drop (length xs - n) xs"

text \<open>The decimal digits of an array index, as a template literal prints it.\<close>

fun show_nat :: "nat \<Rightarrow> string" where
  "show_nat n =
     (if n < 10 then [''0123456789'' ! n]
      else show_nat (n div 10) @ [''0123456789'' ! (n mod 10)])"

declare show_nat.simps [simp del]

section \<open>The completion and embedding provider\<close>

text \<open>
  The provider is outside the repository. A chat completion either rejects (\<open>Inl\<close>) or
  resolves to a response, of which the code reads \<open>choices[0].message.content\<close>: the
  response is the list of its choices, each the content of its message (\<open>None\<close> for a
  \<open>null\<close> content). The prompts are fixed templates around the arguments, so the
  provider's answer is a function of the arguments. \<open>JSON.parse\<close> is a parameter as
  well: it throws (\<open>Inl\<close>) or returns the parsed value. \<open>embeddings_create\<close> gives the
  \<open>embedding\<close> fields of \<open>response.data\<close>, in order.
\<close>

type_synonym chat_response = "string option list"

record provider =
  classify_create :: "string \<Rightarrow> error + chat_response"
  json_parse :: "string \<Rightarrow> error + intent"
  embeddings_create :: "string list \<Rightarrow> error + real list list"
  rag_create :: "string \<Rightarrow> search_result list \<Rightarrow> message list \<Rightarrow> error + chat_response"

text \<open>\<open>response.choices[0].message.content\<close>, on which \<open>.trim()\<close> is then called.\<close>

definition content_of :: "chat_response \<Rightarrow> error + string" where
  "content_of response =
     (case response of
        [] \<Rightarrow> Inl TypeError
      | c # _ \<Rightarrow> (case c of None \<Rightarrow> Inl TypeError | Some s \<Rightarrow> Inr s))"

text \<open>
  \<open>classifyIntent\<close>: the inner \<open>try\<close> covers reading the content and parsing it, the
  outer one the provider call. The result type keeps the error side, so that "it does
  not throw" is a property to prove and not a consequence of the type.
\<close>

definition classifyIntent :: "provider \<Rightarrow> string \<Rightarrow> error + intent" where
  "classifyIntent P query =
     (case classify_create P query of
        Inl err \<Rightarrow> Inr (Intent (Some ''general'') (Some 0.0))
      | Inr response \<Rightarrow>
          (case (case content_of response of
                   Inl e \<Rightarrow> Inl e
                 | Inr s \<Rightarrow> json_parse P (trim s)) of
             Inl parseError \<Rightarrow> Inr (Intent (Some ''general'') (Some 0.5))
           | Inr v \<Rightarrow> Inr v))"

definition generateEmbedding :: "provider \<Rightarrow> string \<Rightarrow> error + real list" where
  "generateEmbedding P text =
     (case embeddings_create P [text] of
        Inl err \<Rightarrow> Inl (EmbeddingError err)
      | Inr data \<Rightarrow>
          (case data of
             [] \<Rightarrow> Inl (EmbeddingError TypeError)
           | v # _ \<Rightarrow> Inr v))"

definition generateBatchEmbeddings :: "provider \<Rightarrow> string list \<Rightarrow> error + real list list" where
  "generateBatchEmbeddings P texts =
     (case embeddings_create P texts of
        Inl err \<Rightarrow> Inl (EmbeddingError err)
      | Inr data \<Rightarrow> Inr data)"

definition generateRAGResponse ::
  "provider \<Rightarrow> string \<Rightarrow> search_result list \<Rightarrow> message list \<Rightarrow> error + string" where
  "generateRAGResponse P query context chatHistory =
     (case rag_create P query context (slice_last 10 chatHistory) of
        Inl err \<Rightarrow> Inl (GenerationError err)
      | Inr response \<Rightarrow>
          (case content_of response of
             Inl err \<Rightarrow> Inl (GenerationError err)
           | Inr s \<Rightarrow> Inr (trim s)))"

section \<open>The vector database\<close>

record vector_entry =
  ve_id :: string
  ve_values :: "real list option"
  ve_metadata :: metadata

text \<open>
  The query that \<open>queryVectors\<close> builds: \<open>filter\<close> is \<open>None\<close> when the filter object has
  no key, and otherwise the category of \<open>{category: {$eq: c}}\<close>.
\<close>

record query_request =
  q_vector :: "real list"
  q_topK :: nat
  q_includeMetadata :: bool
  q_includeValues :: bool
  q_filter :: "category option"

text \<open>
  The index is the external service: \<open>ix_query\<close> rejects or resolves to
  \<open>response.matches\<close> (\<open>None\<close> when the response has none), \<open>ix_upsert\<close> rejects or
  resolves.
\<close>

record pinecone_index =
  ix_query :: "query_request \<Rightarrow> error + match list option"
  ix_upsert :: "vector_entry list \<Rightarrow> error + unit"

record vector_db =
  initialized :: bool
  index :: "pinecone_index option"

definition upsertVectors :: "vector_db \<Rightarrow> vector_entry list \<Rightarrow> error + unit" where
  "upsertVectors db vectors =
     (case index db of
        None \<Rightarrow> Inl NotInitialized
      | Some ix \<Rightarrow> if \<not> initialized db then Inl NotInitialized else ix_upsert ix vectors)"

definition queryVectors ::
  "vector_db \<Rightarrow> real list \<Rightarrow> nat \<Rightarrow> category option \<Rightarrow> error + match list" where
  "queryVectors db vector k flt =
     (case index db of
        None \<Rightarrow> Inl NotInitialized
      | Some ix \<Rightarrow>
          if \<not> initialized db then Inl NotInitialized
          else
            (case ix_query ix \<lparr>q_vector = vector, q_topK = k, q_includeMetadata = True,
                                q_includeValues = False, q_filter = flt\<rparr> of
               Inl err \<Rightarrow> Inl err
             | Inr matches \<Rightarrow> Inr (case matches of None \<Rightarrow> [] | Some ms \<Rightarrow> ms)))"

section \<open>The document service: retrieval\<close>

text \<open>
  The options of \<open>searchDocuments\<close>; \<open>None\<close> is a property left out, which takes the
  default of the destructuring (\<open>topK = 5\<close>, \<open>category = null\<close>, \<open>minScore = 0.7\<close>).
\<close>

record search_options =
  topK :: "nat option"
  category :: "category option"
  minScore :: "real option"

text \<open>
  \<open>const filter = {}; if (category) filter.category = { $eq: category }\<close>: \<open>None\<close> is the
  filter without a key. The empty string is falsy, an inherited value is truthy.
\<close>

definition category_filter :: "category option \<Rightarrow> category option" where
  "category_filter cat =
     (case cat of
        None \<Rightarrow> None
      | Some (Category c) \<Rightarrow> if c = [] then None else Some (Category c)
      | Some (Inherited k) \<Rightarrow> Some (Inherited k))"

definition searchDocuments ::
  "provider \<Rightarrow> vector_db \<Rightarrow> string \<Rightarrow> search_options \<Rightarrow> error + search_result list" where
  "searchDocuments P db query options =
     (let k = (case topK options of None \<Rightarrow> 5 | Some n \<Rightarrow> n);
          cat = category options;
          ms = (case minScore options of None \<Rightarrow> 0.7 | Some m \<Rightarrow> m)
      in case generateEmbedding P query of
           Inl err \<Rightarrow> Inl err
         | Inr queryEmbedding \<Rightarrow>
             (let flt = category_filter cat
              in case queryVectors db queryEmbedding k flt of
                   Inl err \<Rightarrow> Inl err
                 | Inr results \<Rightarrow>
                     Inr (map (\<lambda>result.
                                 \<lparr>sr_id = mt_id result, sr_score = mt_score result,
                                  sr_metadata = mt_metadata result,
                                  sr_text = (case mt_metadata result of
                                               None \<Rightarrow> []
                                             | Some m \<Rightarrow> md_text m)\<rparr>)
                            (filter (\<lambda>result. mt_score result \<ge> ms) results))))"

section \<open>The document service: chunking\<close>

definition chunkSize :: nat where
  "chunkSize = 1000"

definition chunkOverlap :: nat where
  "chunkOverlap = 200"

definition is_terminator :: "char \<Rightarrow> bool" where
  "is_terminator c = (c = CHR ''.'' \<or> c = CHR ''!'' \<or> c = CHR ''?'')"

text \<open>
  \<open>text.split(/[.!?]+/)\<close>: the pieces between the maximal runs of terminators, with an
  empty piece before a leading run and after a trailing one, and the whole text (also
  the empty one) when there is no terminator.
\<close>

function split_sentences :: "string \<Rightarrow> string list" where
  "split_sentences s =
     (let piece = takeWhile (\<lambda>c. \<not> is_terminator c) s;
          rest = dropWhile (\<lambda>c. \<not> is_terminator c) s
      in if rest = [] then [piece]
         else piece # split_sentences (dropWhile is_terminator rest))"
  by pat_completeness auto
termination
proof (relation "measure length")
  show "wf (measure length)" by simp
next
  fix s :: string and piece rest
  assume r: "rest = dropWhile (\<lambda>c. \<not> is_terminator c) s" and ne: "rest \<noteq> []"
  from ne have "\<not> (\<lambda>c. \<not> is_terminator c) (hd rest)"
    unfolding r by (rule hd_dropWhile)
  then have "is_terminator (hd rest)" by simp
  with ne have "length (dropWhile is_terminator rest) < length rest"
    by (cases rest) (simp_all add: le_imp_less_Suc length_dropWhile_le)
  moreover have "length rest \<le> length s"
    unfolding r by (rule length_dropWhile_le)
  ultimately show "(dropWhile is_terminator rest, s) \<in> measure length" by simp
qed

declare split_sentences.simps [simp del]

text \<open>\<open>s.split(' ')\<close>: the pieces between single spaces; never an empty array.\<close>

fun split_sp :: "string \<Rightarrow> string list" where
  "split_sp [] = [[]]"
| "split_sp (c # cs) =
     (if c = CHR '' '' then [] # split_sp cs
      else (case split_sp cs of
              [] \<Rightarrow> [[c]]
            | w # ws \<Rightarrow> (c # w) # ws))"

text \<open>\<open>words.join(' ')\<close>.\<close>

fun join_sp :: "string list \<Rightarrow> string" where
  "join_sp [] = []"
| "join_sp [w] = w"
| "join_sp (w # ws) = w @ '' '' @ join_sp ws"

text \<open>
  The loop of \<open>createChunks\<close> over the sentences, on the three variables \<open>chunks\<close>,
  \<open>currentChunk\<close> and \<open>currentLength\<close>.
\<close>

fun chunk_loop ::
  "string list \<Rightarrow> string list \<Rightarrow> string \<Rightarrow> nat \<Rightarrow> string list \<times> string \<times> nat" where
  "chunk_loop [] chunks currentChunk currentLength = (chunks, currentChunk, currentLength)"
| "chunk_loop (sentence # rest) chunks currentChunk currentLength =
     (let sentenceLength = length (trim sentence)
      in if currentLength + sentenceLength > chunkSize \<and> length currentChunk > 0
         then
           (let words = split_sp currentChunk;
                overlapWords = slice_last (chunkOverlap div 6) words;
                next_chunk = join_sp overlapWords @ '' '' @ trim sentence
            in chunk_loop rest (chunks @ [trim currentChunk]) next_chunk (length next_chunk))
         else
           (let next_chunk = currentChunk @ (if currentChunk \<noteq> [] then '' '' else [])
                               @ trim sentence
            in chunk_loop rest chunks next_chunk (length next_chunk)))"

definition sentences_of :: "string \<Rightarrow> string list" where
  "sentences_of s = filter (\<lambda>sentence. length (trim sentence) > 0) (split_sentences s)"

text \<open>The chunks before the final length filter: the loop, then the last buffer.\<close>

definition raw_chunks :: "string \<Rightarrow> string list" where
  "raw_chunks s =
     (case chunk_loop (sentences_of s) [] [] 0 of
        (chunks, currentChunk, currentLength) \<Rightarrow>
          if length (trim currentChunk) > 0 then chunks @ [trim currentChunk] else chunks)"

definition createChunks :: "string \<Rightarrow> string list" where
  "createChunks s = filter (\<lambda>chunk. length chunk > 50) (raw_chunks s)"

text \<open>
  Two notations for what the loop builds. \<open>overlap_seed b\<close> is the text that the loop
  puts at the start of the buffer after \<open>b\<close>: \<open>overlapWords.join(' ')\<close>. \<open>chunk_chain\<close>
  says that the buffers belong to the groups of sentences one by one: no group is empty,
  every buffer holds a character that is not white space, the first buffer is its group
  joined, and every later buffer is the seed of the buffer before it, a space, and its
  group joined.
\<close>

abbreviation overlap_seed :: "string \<Rightarrow> string" where
  "overlap_seed b \<equiv> join_sp (slice_last (chunkOverlap div 6) (split_sp b))"

abbreviation chunk_chain :: "string list list \<Rightarrow> string list \<Rightarrow> bool" where
  "chunk_chain groups bufs \<equiv>
     length bufs = length groups \<and>
     (\<forall>g \<in> set groups. g \<noteq> []) \<and>
     (\<forall>b \<in> set bufs. \<exists>c \<in> set b. \<not> is_ws c) \<and>
     (\<forall>i < length groups.
        bufs ! i = (if i = 0 then [] else overlap_seed (bufs ! (i - 1)) @ '' '')
                     @ join_sp (map trim (groups ! i)))"

section \<open>The document service: ingestion\<close>

text \<open>The uploaded file as the upload middleware describes it.\<close>

record upload =
  originalname :: string
  path :: string
  size :: nat

text \<open>The \<open>metadata\<close> argument; \<open>None\<close> is a property left out.\<close>

record upload_metadata =
  um_documentId :: "string option"
  um_title :: "string option"
  um_category :: "string option"
  um_tags :: "string list option"

text \<open>
  The file system is a map from paths to contents. \<open>fs.unlink\<close> removes an existing
  file and rejects for a missing one. The libraries are parameters: \<open>extension\<close> is
  \<open>path.extname(name).toLowerCase().slice(1)\<close>, \<open>pdfParse\<close> and \<open>mammoth\<close> turn a
  file's bytes into text or reject.
\<close>

type_synonym filesystem = "string \<rightharpoonup> string"

record libraries =
  extension :: "string \<Rightarrow> string"
  pdfParse :: "string \<Rightarrow> error + string"
  mammoth :: "string \<Rightarrow> error + string"

definition readFile :: "filesystem \<Rightarrow> string \<Rightarrow> error + string" where
  "readFile fs p = (case fs p of None \<Rightarrow> Inl (FileError p) | Some content \<Rightarrow> Inr content)"

definition unlink :: "filesystem \<Rightarrow> string \<Rightarrow> error + filesystem" where
  "unlink fs p = (case fs p of None \<Rightarrow> Inl (FileError p) | Some content \<Rightarrow> Inr (fs(p := None)))"

definition extractFromPDF :: "libraries \<Rightarrow> filesystem \<Rightarrow> string \<Rightarrow> error + string" where
  "extractFromPDF L fs filePath =
     (case readFile fs filePath of
        Inl err \<Rightarrow> Inl PdfError
      | Inr dataBuffer \<Rightarrow>
          (case pdfParse L dataBuffer of Inl err \<Rightarrow> Inl PdfError | Inr t \<Rightarrow> Inr t))"

definition extractFromText :: "filesystem \<Rightarrow> string \<Rightarrow> error + string" where
  "extractFromText fs filePath =
     (case readFile fs filePath of Inl err \<Rightarrow> Inl TextFileError | Inr t \<Rightarrow> Inr t)"

definition extractFromDocx :: "libraries \<Rightarrow> filesystem \<Rightarrow> string \<Rightarrow> error + string" where
  "extractFromDocx L fs filePath =
     (case readFile fs filePath of
        Inl err \<Rightarrow> Inl DocxError
      | Inr bytes \<Rightarrow>
          (case mammoth L bytes of Inl err \<Rightarrow> Inl DocxError | Inr t \<Rightarrow> Inr t))"

definition extractText :: "libraries \<Rightarrow> filesystem \<Rightarrow> upload \<Rightarrow> error + string" where
  "extractText L fs file =
     (let ext = extension L (originalname file)
      in if ext = ''pdf'' then extractFromPDF L fs (path file)
         else if ext = ''txt'' \<or> ext = ''md'' then extractFromText fs (path file)
         else if ext = ''docx'' then extractFromDocx L fs (path file)
         else Inl (UnsupportedType ext))"

text \<open>\<open>metadata.documentId || uuidv4()\<close>: the empty string is falsy as well.\<close>

definition or_uuid :: "string option \<Rightarrow> string \<Rightarrow> string" where
  "or_uuid d uuid = (case d of None \<Rightarrow> uuid | Some x \<Rightarrow> if x = [] then uuid else x)"

text \<open>\<open>embeddings[index]\<close>, \<open>undefined\<close> (\<open>None\<close>) past the end.\<close>

definition nth_opt :: "'a list \<Rightarrow> nat \<Rightarrow> 'a option" where
  "nth_opt xs i = (if i < length xs then Some (xs ! i) else None)"

text \<open>
  \<open>generateVectorData\<close>: \<open>uuid\<close> is what \<open>uuidv4()\<close> returns if it is called here, and
  \<open>now i\<close> the \<open>new Date()\<close> read for chunk \<open>i\<close>.
\<close>

definition generateVectorData ::
  "provider \<Rightarrow> string \<Rightarrow> (nat \<Rightarrow> time) \<Rightarrow> string list \<Rightarrow> upload \<Rightarrow> upload_metadata
     \<Rightarrow> error + vector_entry list" where
  "generateVectorData P uuid now chunks file md =
     (case generateBatchEmbeddings P chunks of
        Inl err \<Rightarrow> Inl err
      | Inr embeddings \<Rightarrow>
          (let documentId = or_uuid (um_documentId md) uuid
           in Inr (map (\<lambda>(index, chunk).
                          \<lparr>ve_id = documentId @ ''_chunk_'' @ show_nat index,
                           ve_values = nth_opt embeddings index,
                           ve_metadata =
                             \<lparr>md_documentId = documentId,
                              md_filename = originalname file,
                              md_chunkIndex = index,
                              md_text = chunk,
                              md_title = (case um_title md of
                                            None \<Rightarrow> originalname file
                                          | Some t \<Rightarrow> if t = [] then originalname file else t),
                              md_category = (case um_category md of
                                               None \<Rightarrow> ''general''
                                             | Some c \<Rightarrow> if c = [] then ''general'' else c),
                              md_tags = (case um_tags md of None \<Rightarrow> [] | Some ts \<Rightarrow> ts),
                              md_uploadedAt = now index,
                              md_fileSize = size file,
                              md_chunkSize = length chunk\<rparr>\<rparr>)
                        (enumerate 0 chunks))))"

record ingest_result =
  r_documentId :: string
  r_filename :: string
  r_fileSize :: nat
  r_chunksCreated :: nat
  r_status :: string
  r_processedAt :: time

text \<open>
  The effects of an ingestion: the file system and the batches that \<open>index.upsert\<close>
  accepted, oldest first.
\<close>

record world =
  w_fs :: filesystem
  w_upserts :: "vector_entry list list"

text \<open>
  \<open>processDocument\<close>: \<open>uuid1\<close> and \<open>uuid2\<close> are the values of the first and of the
  second call of \<open>uuidv4()\<close>, \<open>processedAt\<close> the last \<open>new Date()\<close>. A failure of
  \<open>fs.unlink\<close> is caught and logged.
\<close>

definition processDocument ::
  "libraries \<Rightarrow> provider \<Rightarrow> vector_db \<Rightarrow> string \<Rightarrow> string \<Rightarrow> (nat \<Rightarrow> time) \<Rightarrow> time
     \<Rightarrow> world \<Rightarrow> upload \<Rightarrow> upload_metadata \<Rightarrow> (error + ingest_result) \<times> world" where
  "processDocument L P db uuid1 uuid2 now processedAt w file md =
     (case extractText L (w_fs w) file of
        Inl err \<Rightarrow> (Inl err, w)
      | Inr t \<Rightarrow>
          if length (trim t) = 0 then (Inl NoTextExtracted, w)
          else
            (let chunks = createChunks t
             in case generateVectorData P uuid1 now chunks file md of
                  Inl err \<Rightarrow> (Inl err, w)
                | Inr vectors \<Rightarrow>
                    (case upsertVectors db vectors of
                       Inl err \<Rightarrow> (Inl err, w)
                     | Inr u \<Rightarrow>
                         (let w1 = w\<lparr>w_upserts := w_upserts w @ [vectors]\<rparr>;
                              w2 = (case unlink (w_fs w1) (path file) of
                                      Inl err \<Rightarrow> w1
                                    | Inr fs' \<Rightarrow> w1\<lparr>w_fs := fs'\<rparr>)
                          in (Inr \<lparr>r_documentId = or_uuid (um_documentId md) uuid2,
                                   r_filename = originalname file,
                                   r_fileSize = size file,
                                   r_chunksCreated = length chunks,
                                   r_status = ''processed'',
                                   r_processedAt = processedAt\<rparr>, w2)))))"

section \<open>The chat service\<close>

record session_metadata =
  userAgent :: string
  ip :: string
  source :: string

record session =
  sess_id :: string
  userId :: "string option"
  createdAt :: time
  lastActivity :: time
  messages :: "message list"
  sess_metadata :: session_metadata
  isActive :: bool
  endedAt :: "time option"

text \<open>\<open>this.chatSessions\<close>: a \<open>Map\<close> from session id to session object.\<close>

type_synonym store = "string \<rightharpoonup> session"

definition maxHistoryLength :: nat where
  "maxHistoryLength = 20"

definition sessionTimeout :: int where
  "sessionTimeout = 1000 * 60 * 60"

text \<open>
  \<open>createChatSession\<close>: \<open>sessionId\<close> is the value \<open>uuidv4()\<close> returned and \<open>now\<close> the
  value of \<open>new Date()\<close> (read twice in the source, for both time fields).
\<close>

definition createChatSession ::
  "string \<Rightarrow> time \<Rightarrow> time \<Rightarrow> string option \<Rightarrow> session_metadata \<Rightarrow> store \<Rightarrow> store" where
  "createChatSession sessionId now1 now2 uid md S =
     S(sessionId \<mapsto> \<lparr>sess_id = sessionId, userId = uid, createdAt = now1,
                      lastActivity = now2, messages = [], sess_metadata = md,
                      isActive = True, endedAt = None\<rparr>)"

text \<open>
  \<open>getSession\<close>: returns the session (or \<open>null\<close>, here \<open>None\<close>) and the store, from which
  an expired session has been deleted.
\<close>

definition getSession :: "time \<Rightarrow> store \<Rightarrow> string \<Rightarrow> session option \<times> store" where
  "getSession now S sessionId =
     (case S sessionId of
        None \<Rightarrow> (None, S)
      | Some session \<Rightarrow>
          (let timeDiff = now - lastActivity session in
           if timeDiff > sessionTimeout then (None, S(sessionId := None))
           else (Some session, S)))"

definition getChatHistory :: "session \<Rightarrow> message list" where
  "getChatHistory session = slice_last 10 (messages session)"

text \<open>
  \<open>cleanExpiredSessions\<close>: every entry whose \<open>timeDiff\<close> exceeds the timeout is collected
  and then deleted; the order of the iteration does not show in the resulting map.
\<close>

definition cleanExpiredSessions :: "time \<Rightarrow> store \<Rightarrow> store" where
  "cleanExpiredSessions now S =
     (\<lambda>sessionId.
        case S sessionId of
          None \<Rightarrow> None
        | Some session \<Rightarrow>
            (let timeDiff = now - lastActivity session in
             if timeDiff > sessionTimeout then None else Some session))"

text \<open>
  \<open>endChatSession\<close>: the session object that \<open>getSession\<close> returned is the one in the
  map, so setting its fields updates the stored session.
\<close>

definition endChatSession :: "time \<Rightarrow> time \<Rightarrow> store \<Rightarrow> string \<Rightarrow> bool \<times> store" where
  "endChatSession now_get now_end S sessionId =
     (case getSession now_get S sessionId of
        (None, S1) \<Rightarrow> (False, S1)
      | (Some session, S1) \<Rightarrow>
          (True, S1(sessionId \<mapsto> session\<lparr>isActive := False, endedAt := Some now_end\<rparr>)))"

text \<open>
  \<open>mapIntentToCategory\<close>: \<open>intentToCategory[intent] || null\<close>. The table is an object
  literal, so besides its six keys (of which \<open>general\<close> holds \<open>null\<close>) the lookup finds
  what every object inherits from \<open>Object.prototype\<close>; those values are truthy and are
  returned. An absent \<open>categoria\<close> looks the key \<open>undefined\<close> up and finds nothing.
\<close>

definition object_prototype_keys :: "string list" where
  "object_prototype_keys =
     [''constructor'', ''__defineGetter__'', ''__defineSetter__'', ''hasOwnProperty'',
      ''__lookupGetter__'', ''__lookupSetter__'', ''isPrototypeOf'',
      ''propertyIsEnumerable'', ''toString'', ''valueOf'', ''__proto__'',
      ''toLocaleString'']"

definition mapIntentToCategory :: "string option \<Rightarrow> category option" where
  "mapIntentToCategory i =
     (case i of
        None \<Rightarrow> None
      | Some k \<Rightarrow>
          (if k = ''soporte_tecnico'' then Some (Category ''technical'')
           else if k = ''facturacion'' then Some (Category ''billing'')
           else if k = ''producto_info'' then Some (Category ''product'')
           else if k = ''cuenta_usuario'' then Some (Category ''account'')
           else if k = ''devolucion_reembolso'' then Some (Category ''returns'')
           else if k = ''general'' then None
           else if k \<in> set object_prototype_keys then Some (Inherited k)
           else None))"

text \<open>
  \<open>calculateConfidence\<close>. \<open>intent.confianza || 0.5\<close> takes 0.5 for every falsy value:
  an absent property and the number 0. Reading a property of \<open>null\<close> throws.
\<close>

definition calculateConfidence :: "search_result list \<Rightarrow> intent \<Rightarrow> error + real" where
  "calculateConfidence relevantDocs i =
     (if length relevantDocs = 0 then Inr 0.1
      else
        (let avgScore = foldl (\<lambda>sum doc. sum + sr_score doc) 0 relevantDocs
                          / real (length relevantDocs)
         in case i of
              IntentNull \<Rightarrow> Inl TypeError
            | Intent cat conf \<Rightarrow>
                (let intentConfidence =
                       (case conf of
                          None \<Rightarrow> 0.5
                        | Some c \<Rightarrow> if c = 0 then 0.5 else c)
                 in Inr (min (avgScore * 0.7 + intentConfidence * 0.3) 1.0))))"

record exported_message =
  ex_id :: string
  ex_role :: role
  ex_content :: string
  ex_timestamp :: time
  ex_intent :: "intent option"
  ex_sources :: "source_ref list option"

record exported_session =
  exp_sessionId :: string
  exp_userId :: "string option"
  exp_createdAt :: time
  exp_endedAt :: "time option"
  exp_isActive :: bool
  exp_metadata :: session_metadata
  exp_messages :: "exported_message list"

text \<open>\<open>exportSessionData\<close> reads the map directly and changes nothing.\<close>

definition exportSessionData :: "store \<Rightarrow> string \<Rightarrow> exported_session option" where
  "exportSessionData S sessionId =
     (case S sessionId of
        None \<Rightarrow> None
      | Some session \<Rightarrow>
          Some \<lparr>exp_sessionId = sessionId, exp_userId = userId session,
                exp_createdAt = createdAt session, exp_endedAt = endedAt session,
                exp_isActive = isActive session, exp_metadata = sess_metadata session,
                exp_messages =
                  map (\<lambda>msg. \<lparr>ex_id = msg_id msg, ex_role = msg_role msg,
                                ex_content = msg_content msg,
                                ex_timestamp = msg_timestamp msg,
                                ex_intent = msg_intent msg,
                                ex_sources = msg_sources msg\<rparr>)
                      (messages session)\<rparr>)"

text \<open>
  What \<open>processMessage\<close> reads from outside while it runs, in the order of the source:
  the \<open>new Date()\<close> of \<open>getSession\<close>, of \<open>cleanExpiredSessions\<close> and of the
  \<open>lastActivity\<close> update, then \<open>uuidv4()\<close> and \<open>new Date()\<close> for the user message
  and for the assistant message.
\<close>

record readings =
  t_get :: time
  t_sweep :: time
  t_activity :: time
  id_user :: string
  t_user :: time
  id_assistant :: string
  t_assistant :: time

record pm_options =
  maxResults :: "nat option"

record payload =
  p_messageId :: string
  p_response :: string
  p_sources :: "source_ref list"
  p_intent :: intent
  p_confidence :: real
  p_timestamp :: time

text \<open>
  \<open>processMessage\<close> holds the session object that \<open>getSession\<close> returned and mutates
  it. The map holds the same object under \<open>sessionId\<close> for as long as the entry is
  there, so a mutation shows in the store exactly when the sweep has left the entry in
  place: \<open>commit\<close> writes the object's current value back under that condition.
\<close>

definition commit :: "store \<Rightarrow> string \<Rightarrow> session \<Rightarrow> store" where
  "commit S sessionId obj = (if S sessionId = None then S else S(sessionId \<mapsto> obj))"

text \<open>\<open>session.messages.push(userMessage, assistantMessage)\<close> and the trimming after it.\<close>

definition pushMessages :: "message list \<Rightarrow> message \<Rightarrow> message \<Rightarrow> message list" where
  "pushMessages ms userMessage assistantMessage =
     (let pushed = ms @ [userMessage, assistantMessage]
      in if length pushed > maxHistoryLength * 2
         then slice_last (maxHistoryLength * 2) pushed
         else pushed)"

definition sources_of :: "search_result list \<Rightarrow> source_ref list" where
  "sources_of relevantDocs =
     map (\<lambda>doc. \<lparr>src_documentId = map_option md_documentId (sr_metadata doc),
                   src_filename = map_option md_filename (sr_metadata doc),
                   src_score = sr_score doc\<rparr>) relevantDocs"

text \<open>
  The body of \<open>processMessage\<close> after the session has been found, the sweep has run and
  \<open>lastActivity\<close> has been set: it returns the outcome and the final value of the
  session object. An exception leaves the object as it is at that point.
\<close>

definition respond ::
  "provider \<Rightarrow> vector_db \<Rightarrow> readings \<Rightarrow> session \<Rightarrow> string \<Rightarrow> pm_options
     \<Rightarrow> (error + payload) \<times> session" where
  "respond P db rd session message options =
     (case classifyIntent P message of
        Inl err \<Rightarrow> (Inl err, session)
      | Inr IntentNull \<Rightarrow> (Inl TypeError, session)
      | Inr (Intent categoria confianza) \<Rightarrow>
          (let searchOptions =
                 \<lparr>topK = Some (case maxResults options of
                                 None \<Rightarrow> 5
                               | Some n \<Rightarrow> if n = 0 then 5 else n),
                  category = mapIntentToCategory categoria,
                  minScore = Some 0.6\<rparr>
           in case searchDocuments P db message searchOptions of
                Inl err \<Rightarrow> (Inl err, session)
              | Inr relevantDocs \<Rightarrow>
                  (let chatHistory = getChatHistory session
                   in case generateRAGResponse P message relevantDocs chatHistory of
                        Inl err \<Rightarrow> (Inl err, session)
                      | Inr response \<Rightarrow>
                          (case calculateConfidence relevantDocs (Intent categoria confianza) of
                             Inl err \<Rightarrow> (Inl err, session)
                           | Inr conf \<Rightarrow>
                               (let userMessage =
                                      \<lparr>msg_id = id_user rd, msg_role = User,
                                       msg_content = message, msg_timestamp = t_user rd,
                                       msg_intent = Some (Intent categoria confianza),
                                       msg_sources = None, msg_confidence = None\<rparr>;
                                    assistantMessage =
                                      \<lparr>msg_id = id_assistant rd, msg_role = Assistant,
                                       msg_content = response,
                                       msg_timestamp = t_assistant rd,
                                       msg_intent = None,
                                       msg_sources = Some (sources_of relevantDocs),
                                       msg_confidence = Some conf\<rparr>
                                in (Inr \<lparr>p_messageId = id_assistant rd,
                                         p_response = response,
                                         p_sources = sources_of relevantDocs,
                                         p_intent = Intent categoria confianza,
                                         p_confidence = conf,
                                         p_timestamp = t_assistant rd\<rparr>,
                                    session\<lparr>messages :=
                                      pushMessages (messages session) userMessage
                                        assistantMessage\<rparr>))))))"

definition processMessage ::
  "provider \<Rightarrow> vector_db \<Rightarrow> readings \<Rightarrow> store \<Rightarrow> string \<Rightarrow> string \<Rightarrow> pm_options
     \<Rightarrow> (error + payload) \<times> store" where
  "processMessage P db rd S sessionId message options =
     (case getSession (t_get rd) S sessionId of
        (None, S1) \<Rightarrow> (Inl SessionNotFound, S1)
      | (Some session, S1) \<Rightarrow>
          (let S2 = cleanExpiredSessions (t_sweep rd) S1;
               session1 = session\<lparr>lastActivity := t_activity rd\<rparr>
           in case respond P db rd session1 message options of
                (outcome, session2) \<Rightarrow> (outcome, commit S2 sessionId session2)))"

section \<open>Concrete providers, indexes and stores\<close>

text \<open>
  The inputs at which the theorems below are evaluated. \<open>provider_ok\<close> classifies
  every query as a billing question with confidence 0.9, embeds every text and answers
  every question; \<open>provider_down\<close> rejects the classification call,
  \<open>provider_null\<close> answers it with the JSON text \<open>null\<close> and \<open>provider_negative\<close>
  with a confidence of -2. The index of \<open>db_ok\<close>
  returns three matches with scores 0.9, 0.75 and 0.4. In \<open>store3\<close>, with the clock
  readings of \<open>rd1\<close> (a little after time 5000000), the sessions \<open>s1\<close> and \<open>s3\<close>
  are within the timeout of 3600000 and \<open>s2\<close> is expired.
\<close>

definition provider_ok :: provider where
  "provider_ok =
     \<lparr>classify_create = (\<lambda>q. Inr [Some '' {categoria: facturacion, confianza: 0.9} '']),
      json_parse = (\<lambda>s. if s = ''{categoria: facturacion, confianza: 0.9}''
                          then Inr (Intent (Some ''facturacion'') (Some 0.9))
                          else Inl SyntaxError),
      embeddings_create = (\<lambda>ts. Inr (map (\<lambda>t. [1, 0]) ts)),
      rag_create = (\<lambda>q c h. Inr [Some ''La factura se emite cada mes. ''])\<rparr>"

definition provider_down :: provider where
  "provider_down = provider_ok\<lparr>classify_create := (\<lambda>q. Inl (ProviderFailure ''503''))\<rparr>"

definition provider_null :: provider where
  "provider_null =
     provider_ok\<lparr>classify_create := (\<lambda>q. Inr [Some ''null'']),
                 json_parse := (\<lambda>s. if s = ''null'' then Inr IntentNull else Inl SyntaxError)\<rparr>"

definition provider_negative :: provider where
  "provider_negative =
     provider_ok\<lparr>classify_create := (\<lambda>q. Inr [Some ''{categoria: general, confianza: -2}'']),
                 json_parse := (\<lambda>s. if s = ''{categoria: general, confianza: -2}''
                                     then Inr (Intent (Some ''general'') (Some (- 2)))
                                     else Inl SyntaxError)\<rparr>"

definition match_at :: "string \<Rightarrow> real \<Rightarrow> match" where
  "match_at i sc = \<lparr>mt_id = i, mt_score = sc, mt_metadata = None\<rparr>"

definition db_ok :: vector_db where
  "db_ok =
     \<lparr>initialized = True,
      index = Some \<lparr>ix_query = (\<lambda>req. Inr (Some [match_at ''d1_chunk_0'' 0.9,
                                                    match_at ''d2_chunk_3'' 0.75,
                                                    match_at ''d1_chunk_1'' 0.4])),
                    ix_upsert = (\<lambda>vs. Inr ())\<rparr>\<rparr>"

definition msg0 :: message where
  "msg0 = \<lparr>msg_id = ''m0'', msg_role = User, msg_content = ''hola'', msg_timestamp = 0,
           msg_intent = None, msg_sources = None, msg_confidence = None\<rparr>"

definition session_at :: "string \<Rightarrow> time \<Rightarrow> message list \<Rightarrow> session" where
  "session_at i t ms =
     \<lparr>sess_id = i, userId = None, createdAt = 0, lastActivity = t, messages = ms,
      sess_metadata = \<lparr>userAgent = [], ip = [], source = ''web''\<rparr>,
      isActive = True, endedAt = None\<rparr>"

definition opts06 :: search_options where
  "opts06 = \<lparr>topK = Some 5, category = None, minScore = Some 0.6\<rparr>"

definition opts095 :: search_options where
  "opts095 = \<lparr>topK = Some 5, category = None, minScore = Some 0.95\<rparr>"

definition result_at :: "string \<Rightarrow> real \<Rightarrow> search_result" where
  "result_at i sc = \<lparr>sr_id = i, sr_score = sc, sr_metadata = None, sr_text = []\<rparr>"

definition store3 :: store where
  "store3 = [''s1'' \<mapsto> session_at ''s1'' 5000000 [msg0],
             ''s2'' \<mapsto> session_at ''s2'' 0 [],
             ''s3'' \<mapsto> session_at ''s3'' 4000000 []]"

definition rd1 :: readings where
  "rd1 = \<lparr>t_get = 5000100, t_sweep = 5000200, t_activity = 5000300,
          id_user = ''u-1'', t_user = 5000400, id_assistant = ''a-1'', t_assistant = 5000500\<rparr>"

definition store40 :: store where
  "store40 = [''s1'' \<mapsto> session_at ''s1'' 5000000 (replicate 40 msg0)]"

definition user1 :: message where
  "user1 = \<lparr>msg_id = ''u-1'', msg_role = User, msg_content = ''hola'',
             msg_timestamp = 5000400,
             msg_intent = Some (Intent (Some ''facturacion'') (Some 0.9)),
             msg_sources = None, msg_confidence = None\<rparr>"

definition sources1 :: "source_ref list" where
  "sources1 = [\<lparr>src_documentId = None, src_filename = None, src_score = 0.9\<rparr>,
               \<lparr>src_documentId = None, src_filename = None, src_score = 0.75\<rparr>]"

definition assistant1 :: message where
  "assistant1 = \<lparr>msg_id = ''a-1'', msg_role = Assistant,
                  msg_content = ''La factura se emite cada mes.'',
                  msg_timestamp = 5000500, msg_intent = None,
                  msg_sources = Some sources1, msg_confidence = Some 0.8475\<rparr>"

definition payload1 :: payload where
  "payload1 = \<lparr>p_messageId = ''a-1'', p_response = ''La factura se emite cada mes.'',
                p_sources = sources1,
                p_intent = Intent (Some ''facturacion'') (Some 0.9),
                p_confidence = 0.8475, p_timestamp = 5000500\<rparr>"

text \<open>
  An upload of a three-sentence text file at \<open>uploads/tmp-1\<close>, an upload with an
  unsupported extension at \<open>uploads/tmp-2\<close>, and a text of two sentences whose first
  is longer than \<open>chunkSize\<close>.
\<close>

definition doc_text :: string where
  "doc_text = ''Las devoluciones se aceptan en 30 dias. Guarde el recibo de compra! Gracias.''"

definition libs :: libraries where
  "libs = \<lparr>extension = (\<lambda>name. if name = ''devoluciones.txt'' then ''txt'' else ''exe''),
           pdfParse = (\<lambda>bytes. Inl PdfError),
           mammoth = (\<lambda>bytes. Inl DocxError)\<rparr>"

definition world0 :: world where
  "world0 = \<lparr>w_fs = [''uploads/tmp-1'' \<mapsto> doc_text, ''uploads/tmp-2'' \<mapsto> ''MZ''],
             w_upserts = []\<rparr>"

definition file1 :: upload where
  "file1 = \<lparr>originalname = ''devoluciones.txt'', path = ''uploads/tmp-1'', size = 76\<rparr>"

definition file2 :: upload where
  "file2 = \<lparr>originalname = ''notas.exe'', path = ''uploads/tmp-2'', size = 2\<rparr>"

text \<open>The metadata that the upload route passes: no \<open>documentId\<close>.\<close>

definition md_route :: upload_metadata where
  "md_route = \<lparr>um_documentId = None, um_title = Some ''Devoluciones'',
               um_category = Some ''returns'', um_tags = Some []\<rparr>"

definition provider_no_embeddings :: provider where
  "provider_no_embeddings =
     provider_ok\<lparr>embeddings_create := (\<lambda>ts. Inl (ProviderFailure ''429''))\<rparr>"

definition long_text :: string where
  "long_text = concat (replicate 110 ''documento '') @ ''fin. Otra frase mas larga aqui.''"

definition long_chunk :: string where
  "long_chunk = concat (replicate 110 ''documento '') @ ''fin''"

definition long_seed :: string where
  "long_seed = concat (replicate 32 ''documento '') @ ''fin''"

section \<open>Runs of message processing\<close>

lemma respond_cases:
  "\<exists>outcome session2. respond P db rd session message options = (outcome, session2)"
  by (cases "respond P db rd session message options") simp

lemma respond_success:
  assumes "respond P db rd session message options = (Inr pl, session2)"
  shows "\<exists>cat conf docs response c.
           classifyIntent P message = Inr (Intent cat conf) \<and>
           searchDocuments P db message
             \<lparr>topK = Some (case maxResults options of None \<Rightarrow> 5
                            | Some n \<Rightarrow> if n = 0 then 5 else n),
              category = mapIntentToCategory cat, minScore = Some 0.6\<rparr> = Inr docs \<and>
           generateRAGResponse P message docs (getChatHistory session) = Inr response \<and>
           calculateConfidence docs (Intent cat conf) = Inr c \<and>
           p_confidence pl = c \<and> p_response pl = response \<and>
           p_messageId pl = id_assistant rd \<and>
           session2 = session\<lparr>messages :=
             pushMessages (messages session)
               \<lparr>msg_id = id_user rd, msg_role = User, msg_content = message,
                msg_timestamp = t_user rd, msg_intent = Some (Intent cat conf),
                msg_sources = None, msg_confidence = None\<rparr>
               \<lparr>msg_id = id_assistant rd, msg_role = Assistant, msg_content = response,
                msg_timestamp = t_assistant rd, msg_intent = None,
                msg_sources = Some (sources_of docs), msg_confidence = Some c\<rparr>\<rparr>"
  using assms
  by (auto simp: respond_def Let_def split: sum.splits intent.splits)

lemma trim_ex1: "trim '' {categoria: facturacion, confianza: 0.9} '' = ''{categoria: facturacion, confianza: 0.9}''"
  by (simp add: trim_def is_ws_def)

lemma trim_ex3: "trim ''La factura se emite cada mes. '' = ''La factura se emite cada mes.''"
  by (simp add: trim_def is_ws_def)

lemma rd1_simps:
  "t_get rd1 = 5000100" "t_sweep rd1 = 5000200" "t_activity rd1 = 5000300"
  "id_user rd1 = ''u-1''" "t_user rd1 = 5000400" "id_assistant rd1 = ''a-1''"
  "t_assistant rd1 = 5000500"
  by (simp_all add: rd1_def)

lemma store3_s1: "store3 ''s1'' = Some (session_at ''s1'' 5000000 [msg0])"
  by (simp add: store3_def)

lemma respond_ex:
  "respond provider_ok db_ok rd1 sess ''hola'' \<lparr>maxResults = None\<rparr> =
     (Inr payload1, sess\<lparr>messages := pushMessages (messages sess) user1 assistant1\<rparr>)"
  by (simp add: respond_def classifyIntent_def content_of_def trim_ex1 trim_ex3
      mapIntentToCategory_def searchDocuments_def category_filter_def generateEmbedding_def
      queryVectors_def
      generateRAGResponse_def calculateConfidence_def provider_ok_def db_ok_def
      match_at_def sources_of_def rd1_simps payload1_def
      user1_def assistant1_def sources1_def)

lemma processMessage_ex:
  "S ''s1'' = Some sess \<Longrightarrow> lastActivity sess = 5000000 \<Longrightarrow>
   processMessage provider_ok db_ok rd1 S ''s1'' ''hola'' \<lparr>maxResults = None\<rparr> =
     (Inr payload1,
      (cleanExpiredSessions 5000200 S)
        (''s1'' \<mapsto> sess\<lparr>lastActivity := 5000300,
                           messages := pushMessages (messages sess) user1 assistant1\<rparr>))"
  by (simp add: processMessage_def getSession_def sessionTimeout_def respond_ex commit_def
      cleanExpiredSessions_def rd1_simps)

section \<open>The intent classifier and provider output that parses\<close>

lemma trim_null: "trim ''null'' = ''null''"
  by (simp add: trim_def is_ws_def)

text \<open>
  What \<open>classifyIntent\<close> does: it never throws; a rejected provider call gives confidence
  0, an exception while the content is read or parsed gives confidence 0.5, and any
  parsed value is returned as it is.
\<close>

lemma classifyIntent_returns:
  "(\<exists>i. classifyIntent P q = Inr i) \<and>
   (\<forall>e. classify_create P q = Inl e \<longrightarrow>
        classifyIntent P q = Inr (Intent (Some ''general'') (Some 0.0))) \<and>
   (\<forall>r e. classify_create P q = Inr r \<longrightarrow>
        (content_of r = Inl e \<or> (\<exists>s. content_of r = Inr s \<and> json_parse P (trim s) = Inl e)) \<longrightarrow>
        classifyIntent P q = Inr (Intent (Some ''general'') (Some 0.5))) \<and>
   (\<forall>r s v. classify_create P q = Inr r \<longrightarrow> content_of r = Inr s \<longrightarrow>
        json_parse P (trim s) = Inr v \<longrightarrow> classifyIntent P q = Inr v)"
  by (auto simp: classifyIntent_def split: sum.splits)

text \<open>
  C7. The claim is that \<open>classifyIntent\<close> answers malformed provider output with
  \<open>{categoria: general, confianza: 0.5}\<close> and otherwise returns a category and a
  confidence. The inner \<open>catch\<close> covers only an exception while the content is read and
  parsed. When the content is the JSON text \<open>null\<close>, \<open>JSON.parse\<close> succeeds and
  \<open>classifyIntent\<close> returns \<open>null\<close>: neither the fallback nor a classification, and
  \<open>processMessage\<close> then throws a \<open>TypeError\<close> at \<open>intent.categoria\<close>.
\<close>

theorem classifyIntent_null_content:
  "classify_create provider_null ''hola'' = Inr [Some ''null''] \<and>
   json_parse provider_null (trim ''null'') = Inr IntentNull \<and>
   classifyIntent provider_null ''hola'' = Inr IntentNull \<and>
   classifyIntent provider_null ''hola'' \<noteq> Inr (Intent (Some ''general'') (Some 0.5)) \<and>
   fst (processMessage provider_null db_ok rd1 store3 ''s1'' ''hola'' \<lparr>maxResults = None\<rparr>)
     = Inl TypeError"
proof -
  have a: "classifyIntent provider_null ''hola'' = Inr IntentNull"
    by (simp add: classifyIntent_def provider_null_def provider_ok_def content_of_def
        trim_null)
  have b: "fst (processMessage provider_null db_ok rd1 store3 ''s1'' ''hola''
                  \<lparr>maxResults = None\<rparr>) = Inl TypeError"
    by (simp add: processMessage_def getSession_def store3_s1 session_at_def
        sessionTimeout_def rd1_simps respond_def a)
  from a b show ?thesis
    by (simp add: provider_null_def provider_ok_def trim_null)
qed

section \<open>The retriever filters and keeps the order\<close>

text \<open>
  C3. Every entry that \<open>searchDocuments\<close> returns has a score of at least \<open>minScore\<close>
  (0.7 when the option is left out), and it returns only when the embedding call and the
  index query have succeeded. Whenever they succeed it returns, without an error, the
  index's matches that pass the threshold, in the index's order: a ranking that is
  non-increasing in score stays so, and nothing is sorted again. When no match passes,
  what it returns is the empty array.
\<close>

theorem searchDocuments_scores:
  "(\<forall>rs. searchDocuments P db q opts = Inr rs \<longrightarrow>
      (\<forall>r \<in> set rs. sr_score r \<ge> (case minScore opts of None \<Rightarrow> 0.7 | Some m \<Rightarrow> m)) \<and>
      (\<exists>v ms. generateEmbedding P q = Inr v \<and>
         queryVectors db v (case topK opts of None \<Rightarrow> 5 | Some n \<Rightarrow> n)
           (category_filter (category opts)) = Inr ms)) \<and>
   (\<forall>v ms. generateEmbedding P q = Inr v \<longrightarrow>
      queryVectors db v (case topK opts of None \<Rightarrow> 5 | Some n \<Rightarrow> n)
        (category_filter (category opts)) = Inr ms \<longrightarrow>
      (\<exists>rs. searchDocuments P db q opts = Inr rs \<and>
         map sr_score rs =
           filter (\<lambda>x. x \<ge> (case minScore opts of None \<Rightarrow> 0.7 | Some m \<Rightarrow> m))
             (map mt_score ms) \<and>
         map sr_id rs =
           map mt_id
             (filter (\<lambda>m. mt_score m \<ge> (case minScore opts of None \<Rightarrow> 0.7 | Some m \<Rightarrow> m))
                ms) \<and>
         (sorted_wrt (\<ge>) (map mt_score ms) \<longrightarrow> sorted_wrt (\<ge>) (map sr_score rs))) \<and>
      ((\<forall>m \<in> set ms. mt_score m < (case minScore opts of None \<Rightarrow> 0.7 | Some m \<Rightarrow> m))
         \<longrightarrow> searchDocuments P db q opts = Inr []))"
proof (intro conjI allI impI)
  fix rs assume "searchDocuments P db q opts = Inr rs"
  then show "\<forall>r \<in> set rs. sr_score r \<ge> (case minScore opts of None \<Rightarrow> 0.7 | Some m \<Rightarrow> m)"
    by (auto simp: searchDocuments_def Let_def split: sum.splits)
next
  fix rs assume "searchDocuments P db q opts = Inr rs"
  then show "\<exists>v ms. generateEmbedding P q = Inr v \<and>
         queryVectors db v (case topK opts of None \<Rightarrow> 5 | Some n \<Rightarrow> n)
           (category_filter (category opts)) = Inr ms"
    by (auto simp: searchDocuments_def Let_def split: sum.splits)
next
  fix v ms
  let ?m = "case minScore opts of None \<Rightarrow> 0.7 | Some m \<Rightarrow> m"
  let ?fmt = "\<lambda>result. \<lparr>sr_id = mt_id result, sr_score = mt_score result,
                          sr_metadata = mt_metadata result,
                          sr_text = (case mt_metadata result of None \<Rightarrow> [] | Some m \<Rightarrow> md_text m)\<rparr>"
  assume v: "generateEmbedding P q = Inr v"
    and ms: "queryVectors db v (case topK opts of None \<Rightarrow> 5 | Some n \<Rightarrow> n)
               (category_filter (category opts)) = Inr ms"
  have run: "searchDocuments P db q opts
               = Inr (map ?fmt (filter (\<lambda>result. mt_score result \<ge> ?m) ms))"
    by (simp add: searchDocuments_def Let_def v ms)
  have sc: "map sr_score (map ?fmt (filter (\<lambda>result. mt_score result \<ge> ?m) ms))
              = filter (\<lambda>x. x \<ge> ?m) (map mt_score ms)"
    by (simp add: filter_map comp_def)
  have ids: "map sr_id (map ?fmt (filter (\<lambda>result. mt_score result \<ge> ?m) ms))
               = map mt_id (filter (\<lambda>m. mt_score m \<ge> ?m) ms)"
    by (simp add: comp_def)
  have srt: "sorted_wrt (\<ge>) (map mt_score ms) \<longrightarrow>
             sorted_wrt (\<ge>) (map sr_score (map ?fmt (filter (\<lambda>result. mt_score result \<ge> ?m) ms)))"
    unfolding sc by (simp add: sorted_wrt_filter)
  from run sc ids srt
  show "\<exists>rs. searchDocuments P db q opts = Inr rs \<and>
         map sr_score rs = filter (\<lambda>x. x \<ge> ?m) (map mt_score ms) \<and>
         map sr_id rs = map mt_id (filter (\<lambda>m. mt_score m \<ge> ?m) ms) \<and>
         (sorted_wrt (\<ge>) (map mt_score ms) \<longrightarrow> sorted_wrt (\<ge>) (map sr_score rs))"
    by blast
  assume "\<forall>m \<in> set ms. mt_score m < ?m"
  then have "filter (\<lambda>result. mt_score result \<ge> ?m) ms = []"
    by (auto simp: filter_empty_conv)
  with run show "searchDocuments P db q opts = Inr []" by simp
qed

lemma embedding_ex: "generateEmbedding provider_ok ''hola'' = Inr [1, 0]"
  by (simp add: generateEmbedding_def provider_ok_def)

lemma query_ex:
  "queryVectors db_ok [1, 0] 5 None =
     Inr [match_at ''d1_chunk_0'' 0.9, match_at ''d2_chunk_3'' 0.75, match_at ''d1_chunk_1'' 0.4]"
  by (simp add: queryVectors_def db_ok_def)

theorem searchDocuments_scores_witness:
  "generateEmbedding provider_ok ''hola'' = Inr [1, 0] \<and>
   queryVectors db_ok [1, 0] 5 None =
     Inr [match_at ''d1_chunk_0'' 0.9, match_at ''d2_chunk_3'' 0.75, match_at ''d1_chunk_1'' 0.4] \<and>
   searchDocuments provider_ok db_ok ''hola'' opts06 =
     Inr [result_at ''d1_chunk_0'' 0.9, result_at ''d2_chunk_3'' 0.75] \<and>
   sr_score (result_at ''d1_chunk_0'' 0.9) \<ge> 0.6 \<and>
   sr_score (result_at ''d2_chunk_3'' 0.75) \<ge> 0.6 \<and>
   sr_score (result_at ''d1_chunk_0'' 0.9) \<ge> sr_score (result_at ''d2_chunk_3'' 0.75) \<and>
   mt_score (match_at ''d1_chunk_0'' 0.9) < 0.95 \<and>
   mt_score (match_at ''d2_chunk_3'' 0.75) < 0.95 \<and>
   mt_score (match_at ''d1_chunk_1'' 0.4) < 0.95 \<and>
   searchDocuments provider_ok db_ok ''hola'' opts095 = Inr []"
proof -
  have run: "searchDocuments provider_ok db_ok ''hola'' opts06 =
     Inr [result_at ''d1_chunk_0'' 0.9, result_at ''d2_chunk_3'' 0.75]"
    by (simp add: searchDocuments_def category_filter_def embedding_ex query_ex opts06_def
        match_at_def result_at_def)
  from searchDocuments_scores [of provider_ok db_ok "''hola''" opts06] run
  have "\<forall>r \<in> set [result_at ''d1_chunk_0'' 0.9, result_at ''d2_chunk_3'' 0.75].
          sr_score r \<ge> (case minScore opts06 of None \<Rightarrow> 0.7 | Some m \<Rightarrow> m)"
    by blast
  then have a: "sr_score (result_at ''d1_chunk_0'' 0.9) \<ge> 0.6 \<and>
                sr_score (result_at ''d2_chunk_3'' 0.75) \<ge> 0.6"
    by (simp add: opts06_def)
  have b: "sr_score (result_at ''d1_chunk_0'' 0.9) \<ge> sr_score (result_at ''d2_chunk_3'' 0.75)"
    by (simp add: result_at_def)
  have c: "mt_score (match_at ''d1_chunk_0'' 0.9) < 0.95"
          "mt_score (match_at ''d2_chunk_3'' 0.75) < 0.95"
          "mt_score (match_at ''d1_chunk_1'' 0.4) < 0.95"
    by (simp_all add: match_at_def)
  have e: "generateEmbedding provider_ok ''hola'' = Inr [1, 0]" by (rule embedding_ex)
  have f: "queryVectors db_ok [1, 0]
             (case topK opts095 of None \<Rightarrow> 5 | Some n \<Rightarrow> n)
             (category_filter (category opts095)) =
     Inr [match_at ''d1_chunk_0'' 0.9, match_at ''d2_chunk_3'' 0.75, match_at ''d1_chunk_1'' 0.4]"
    by (simp add: opts095_def category_filter_def query_ex)
  have g: "\<forall>m \<in> set [match_at ''d1_chunk_0'' 0.9, match_at ''d2_chunk_3'' 0.75,
                         match_at ''d1_chunk_1'' 0.4].
             mt_score m < (case minScore opts095 of None \<Rightarrow> 0.7 | Some m \<Rightarrow> m)"
    using c by (simp add: opts095_def)
  from searchDocuments_scores [of provider_ok db_ok "''hola''" opts095] e f g
  have d: "searchDocuments provider_ok db_ok ''hola'' opts095 = Inr []"
    by blast
  from run a b c d embedding_ex query_ex show ?thesis by blast
qed

section \<open>The confidence score\<close>

lemma trim_negative:
  "trim ''{categoria: general, confianza: -2}'' = ''{categoria: general, confianza: -2}''"
  by (simp add: trim_def is_ws_def)

text \<open>
  C2. The claim is that the confidence is 0.7 times the mean retrieval score plus 0.3
  times the intent confidence, capped at 1, and that it lies between 0 and 1. When the
  classification call fails, \<open>classifyIntent\<close> returns the confidence 0, and
  \<open>intent.confianza || 0.5\<close> replaces it by 0.5: with the retrieved scores 0.9 and 0.75
  the confidence is 0.7275 where the claim gives 0.5775. With a parsed confidence of
  -2 the confidence is -0.0225: \<open>Math.min\<close> bounds it from above only.
\<close>

theorem processMessage_confidence_zero_intent:
  "classifyIntent provider_down ''hola'' = Inr (Intent (Some ''general'') (Some 0)) \<and>
   map_sum (\<lambda>e. e) p_sources
     (fst (processMessage provider_down db_ok rd1 store3 ''s1'' ''hola'' \<lparr>maxResults = None\<rparr>))
     = Inr sources1 \<and>
   map_sum (\<lambda>e. e) p_confidence
     (fst (processMessage provider_down db_ok rd1 store3 ''s1'' ''hola'' \<lparr>maxResults = None\<rparr>))
     = Inr 0.7275 \<and>
   min (0.7 * ((0.9 + 0.75) / 2) + 0.3 * 0) 1 = (0.5775 :: real) \<and>
   classifyIntent provider_negative ''hola'' = Inr (Intent (Some ''general'') (Some (- 2))) \<and>
   map_sum (\<lambda>e. e) p_confidence
     (fst (processMessage provider_negative db_ok rd1 store3 ''s1'' ''hola''
             \<lparr>maxResults = None\<rparr>))
     = Inr (- 0.0225) \<and>
   (- 0.0225 :: real) < 0"
proof -
  have a: "classifyIntent provider_down ''hola'' = Inr (Intent (Some ''general'') (Some 0))"
    by (simp add: classifyIntent_def provider_down_def provider_ok_def)
  have b: "classifyIntent provider_negative ''hola''
             = Inr (Intent (Some ''general'') (Some (- 2)))"
    by (simp add: classifyIntent_def provider_negative_def provider_ok_def content_of_def
        trim_negative)
  have c: "fst (processMessage provider_down db_ok rd1 store3 ''s1'' ''hola''
                  \<lparr>maxResults = None\<rparr>)
             = Inr \<lparr>p_messageId = ''a-1'', p_response = ''La factura se emite cada mes.'',
                    p_sources = sources1, p_intent = Intent (Some ''general'') (Some 0),
                    p_confidence = 0.7275, p_timestamp = 5000500\<rparr>"
    by (simp add: processMessage_def getSession_def store3_s1 session_at_def
        sessionTimeout_def rd1_simps respond_def classifyIntent_def mapIntentToCategory_def
        searchDocuments_def category_filter_def generateEmbedding_def queryVectors_def
        generateRAGResponse_def content_of_def trim_ex3 calculateConfidence_def
        provider_down_def provider_ok_def db_ok_def match_at_def sources_of_def sources1_def)
  have d: "fst (processMessage provider_negative db_ok rd1 store3 ''s1'' ''hola''
                  \<lparr>maxResults = None\<rparr>)
             = Inr \<lparr>p_messageId = ''a-1'', p_response = ''La factura se emite cada mes.'',
                    p_sources = sources1, p_intent = Intent (Some ''general'') (Some (- 2)),
                    p_confidence = - 0.0225, p_timestamp = 5000500\<rparr>"
    by (simp add: processMessage_def getSession_def store3_s1 session_at_def
        sessionTimeout_def rd1_simps respond_def classifyIntent_def trim_negative
        mapIntentToCategory_def
        searchDocuments_def category_filter_def generateEmbedding_def queryVectors_def
        generateRAGResponse_def content_of_def trim_ex3 calculateConfidence_def
        provider_negative_def provider_ok_def db_ok_def match_at_def sources_of_def
        sources1_def)
  from a b show ?thesis by (simp add: c d)
qed

section \<open>Message processing appends a pair of messages\<close>

lemma pushMessages_slice:
  "pushMessages ms u a = slice_last (maxHistoryLength * 2) (ms @ [u, a])"
  by (simp add: pushMessages_def slice_last_def Let_def)

lemma length_pushMessages:
  "length (pushMessages ms u a) = min (length ms + 2) (maxHistoryLength * 2)"
  by (simp add: pushMessages_slice slice_last_def maxHistoryLength_def)

text \<open>
  C1, as stated, fails: the history is cut to its last \<open>2 * maxHistoryLength = 40\<close>
  messages, so a session that holds 40 messages holds 40 afterwards, not 42, and 40
  is more than \<open>maxHistoryLength\<close>.
\<close>

theorem processMessage_count_counterexample:
  "fst (processMessage provider_ok db_ok rd1 store40 ''s1'' ''hola'' \<lparr>maxResults = None\<rparr>)
     = Inr payload1 \<and>
   map_option (\<lambda>s. length (messages s)) (store40 ''s1'') = Some 40 \<and>
   map_option (\<lambda>s. length (messages s))
     (snd (processMessage provider_ok db_ok rd1 store40 ''s1'' ''hola'' \<lparr>maxResults = None\<rparr>)
        ''s1'') = Some 40 \<and>
   maxHistoryLength < 40"
proof -
  have a: "store40 ''s1'' = Some (session_at ''s1'' 5000000 (replicate 40 msg0))"
    by (simp add: store40_def)
  have b: "lastActivity (session_at ''s1'' 5000000 (replicate 40 msg0)) = 5000000"
    by (simp add: session_at_def)
  have c: "length (messages (session_at ''s1'' 5000000 (replicate 40 msg0))) = 40"
    by (simp add: session_at_def)
  show ?thesis
    by (simp add: processMessage_ex [where S = store40, OF a b] a c length_pushMessages
        maxHistoryLength_def)
qed

text \<open>
  C1, amended. When \<open>processMessage\<close> succeeds on a stored session that is expired
  neither at the clock reading of \<open>getSession\<close> nor at that of the sweep, the stored
  messages become the last 40 (twice \<open>maxHistoryLength\<close>) of the old messages followed
  by the user message and then the assistant message: the count is the smaller of the
  old count plus 2 and 40, and the oldest messages are the ones dropped. \<open>lastActivity\<close>
  becomes the clock reading taken for it, which is not below the previous value when the
  clock has not been set back behind that value.
\<close>

theorem processMessage_appends:
  assumes "S sessionId = Some session"
      and "t_get rd - lastActivity session \<le> sessionTimeout"
      and "t_sweep rd - lastActivity session \<le> sessionTimeout"
      and "processMessage P db rd S sessionId message options = (Inr pl, S')"
  shows "\<exists>u a. S' sessionId =
                  Some (session\<lparr>lastActivity := t_activity rd,
                                messages := slice_last (maxHistoryLength * 2)
                                              (messages session @ [u, a])\<rparr>) \<and>
               msg_role u = User \<and> msg_content u = message \<and>
               msg_role a = Assistant \<and> msg_content a = p_response pl \<and>
               msg_id a = p_messageId pl \<and>
               length (slice_last (maxHistoryLength * 2) (messages session @ [u, a]))
                 = min (length (messages session) + 2) (maxHistoryLength * 2) \<and>
               (length (messages session) + 2 \<le> maxHistoryLength * 2 \<longrightarrow>
                  slice_last (maxHistoryLength * 2) (messages session @ [u, a])
                    = messages session @ [u, a]) \<and>
               (lastActivity session \<le> t_activity rd \<longrightarrow>
                  lastActivity session
                    \<le> lastActivity (session\<lparr>lastActivity := t_activity rd\<rparr>))"
proof -
  from assms(1,2) have g: "getSession (t_get rd) S sessionId = (Some session, S)"
    by (simp add: getSession_def)
  obtain outcome session2 where
    r: "respond P db rd (session\<lparr>lastActivity := t_activity rd\<rparr>) message options
          = (outcome, session2)"
    using respond_cases by blast
  have pm: "processMessage P db rd S sessionId message options
          = (outcome, commit (cleanExpiredSessions (t_sweep rd) S) sessionId session2)"
    by (simp add: processMessage_def g r Let_def)
  with assms(4) have o: "outcome = Inr pl"
    and S': "S' = commit (cleanExpiredSessions (t_sweep rd) S) sessionId session2"
    by simp_all
  from assms(1,3) have kept: "cleanExpiredSessions (t_sweep rd) S sessionId = Some session"
    by (simp add: cleanExpiredSessions_def)
  from respond_success [OF r [unfolded o]] obtain u a where
    s2: "session2 = session\<lparr>lastActivity := t_activity rd,
                            messages := pushMessages (messages session) u a\<rparr>"
    and u: "msg_role u = User" "msg_content u = message"
    and a: "msg_role a = Assistant" "msg_content a = p_response pl"
           "msg_id a = p_messageId pl"
    by fastforce
  have "S' sessionId = Some session2"
    by (simp add: S' commit_def kept)
  then have st: "S' sessionId =
                  Some (session\<lparr>lastActivity := t_activity rd,
                                messages := slice_last (maxHistoryLength * 2)
                                              (messages session @ [u, a])\<rparr>)"
    by (simp add: s2 pushMessages_slice)
  have len: "length (slice_last (maxHistoryLength * 2) (messages session @ [u, a]))
                 = min (length (messages session) + 2) (maxHistoryLength * 2)"
    using length_pushMessages [of "messages session" u a] by (simp add: pushMessages_slice)
  have whole: "length (messages session) + 2 \<le> maxHistoryLength * 2 \<longrightarrow>
                  slice_last (maxHistoryLength * 2) (messages session @ [u, a])
                    = messages session @ [u, a]"
    by (simp add: slice_last_def)
  from st u a len whole show ?thesis by auto
qed

theorem processMessage_appends_witness:
  "store3 ''s1'' = Some (session_at ''s1'' 5000000 [msg0]) \<and>
   t_get rd1 - lastActivity (session_at ''s1'' 5000000 [msg0]) \<le> sessionTimeout \<and>
   t_sweep rd1 - lastActivity (session_at ''s1'' 5000000 [msg0]) \<le> sessionTimeout \<and>
   fst (processMessage provider_ok db_ok rd1 store3 ''s1'' ''hola'' \<lparr>maxResults = None\<rparr>)
     = Inr payload1 \<and>
   map_option (\<lambda>s. length (messages s))
     (snd (processMessage provider_ok db_ok rd1 store3 ''s1'' ''hola'' \<lparr>maxResults = None\<rparr>)
        ''s1'') = Some 3 \<and>
   map_option lastActivity
     (snd (processMessage provider_ok db_ok rd1 store3 ''s1'' ''hola'' \<lparr>maxResults = None\<rparr>)
        ''s1'') = Some 5000300 \<and>
   map_option messages
     (snd (processMessage provider_ok db_ok rd1 store3 ''s1'' ''hola'' \<lparr>maxResults = None\<rparr>)
        ''s1'') = Some [msg0, user1, assistant1]"
proof -
  have a: "store3 ''s1'' = Some (session_at ''s1'' 5000000 [msg0])"
    by (simp add: store3_def)
  have b: "t_get rd1 - lastActivity (session_at ''s1'' 5000000 [msg0]) \<le> sessionTimeout"
    and c: "t_sweep rd1 - lastActivity (session_at ''s1'' 5000000 [msg0]) \<le> sessionTimeout"
    by (simp_all add: rd1_simps session_at_def sessionTimeout_def)
  have la: "lastActivity (session_at ''s1'' 5000000 [msg0]) = 5000000"
    by (simp add: session_at_def)
  note pm = processMessage_ex [where S = store3, OF a la]
  from processMessage_appends [where S = store3 and sessionId = "''s1''", OF a b c pm]
  obtain u v where
    st: "((cleanExpiredSessions 5000200 store3)
            (''s1'' \<mapsto> (session_at ''s1'' 5000000 [msg0])
               \<lparr>lastActivity := 5000300,
                 messages := pushMessages (messages (session_at ''s1'' 5000000 [msg0]))
                               user1 assistant1\<rparr>)) ''s1'' =
           Some ((session_at ''s1'' 5000000 [msg0])
                   \<lparr>lastActivity := t_activity rd1,
                     messages := slice_last (maxHistoryLength * 2)
                                   (messages (session_at ''s1'' 5000000 [msg0]) @ [u, v])\<rparr>)"
    and len: "length (slice_last (maxHistoryLength * 2)
                        (messages (session_at ''s1'' 5000000 [msg0]) @ [u, v]))
                = min (length (messages (session_at ''s1'' 5000000 [msg0])) + 2)
                      (maxHistoryLength * 2)"
    by blast
  have d: "map_option (\<lambda>s. length (messages s))
     (snd (processMessage provider_ok db_ok rd1 store3 ''s1'' ''hola'' \<lparr>maxResults = None\<rparr>)
        ''s1'') = Some 3"
    unfolding pm snd_conv st using len
    by (simp add: session_at_def maxHistoryLength_def)
  have e: "map_option lastActivity
     (snd (processMessage provider_ok db_ok rd1 store3 ''s1'' ''hola'' \<lparr>maxResults = None\<rparr>)
        ''s1'') = Some 5000300"
    unfolding pm snd_conv st by (simp add: rd1_simps)
  have f: "map_option messages
     (snd (processMessage provider_ok db_ok rd1 store3 ''s1'' ''hola'' \<lparr>maxResults = None\<rparr>)
        ''s1'') = Some [msg0, user1, assistant1]"
    unfolding pm snd_conv
    by (simp add: session_at_def pushMessages_def maxHistoryLength_def)
  from a b c d e f pm show ?thesis by simp
qed

section \<open>Message processing sweeps the other sessions\<close>

text \<open>
  C10. When \<open>processMessage\<close> runs on a stored session that is not expired, every other
  session comes out as the sweep leaves it: unchanged when its \<open>lastActivity\<close> is within
  the timeout at the sweep's clock reading, deleted when it is beyond, whoever owns it
  and whether or not the rest of the processing succeeds.
\<close>

theorem processMessage_other_sessions:
  assumes "S sessionId = Some session"
      and "t_get rd - lastActivity session \<le> sessionTimeout"
      and "other \<noteq> sessionId"
  shows "snd (processMessage P db rd S sessionId message options) other =
           (case S other of
              None \<Rightarrow> None
            | Some s \<Rightarrow> if t_sweep rd - lastActivity s > sessionTimeout then None else Some s)"
proof -
  from assms(1,2) have g: "getSession (t_get rd) S sessionId = (Some session, S)"
    by (simp add: getSession_def)
  obtain outcome session2 where
    r: "respond P db rd (session\<lparr>lastActivity := t_activity rd\<rparr>) message options
          = (outcome, session2)"
    using respond_cases by blast
  have "snd (processMessage P db rd S sessionId message options)
          = commit (cleanExpiredSessions (t_sweep rd) S) sessionId session2"
    by (simp add: processMessage_def g r Let_def)
  with assms(3) show ?thesis
    by (simp add: commit_def cleanExpiredSessions_def Let_def split: option.splits)
qed

theorem processMessage_other_sessions_witness:
  "store3 ''s1'' = Some (session_at ''s1'' 5000000 [msg0]) \<and>
   t_get rd1 - lastActivity (session_at ''s1'' 5000000 [msg0]) \<le> sessionTimeout \<and>
   ''s2'' \<noteq> ''s1'' \<and> ''s3'' \<noteq> ''s1'' \<and>
   snd (processMessage provider_ok db_ok rd1 store3 ''s1'' ''hola'' \<lparr>maxResults = None\<rparr>) ''s2''
     = None \<and>
   snd (processMessage provider_ok db_ok rd1 store3 ''s1'' ''hola'' \<lparr>maxResults = None\<rparr>) ''s3''
     = Some (session_at ''s3'' 4000000 [])"
proof -
  have a: "store3 ''s1'' = Some (session_at ''s1'' 5000000 [msg0])"
    by (simp add: store3_def)
  have b: "t_get rd1 - lastActivity (session_at ''s1'' 5000000 [msg0]) \<le> sessionTimeout"
    by (simp add: rd1_def session_at_def sessionTimeout_def)
  have c: "''s2'' \<noteq> ''s1''" and d: "''s3'' \<noteq> ''s1''" by simp_all
  from processMessage_other_sessions [where S = store3 and sessionId = "''s1''" and other = "''s2''"
         and P = provider_ok and db = db_ok and message = "''hola''"
         and options = "\<lparr>maxResults = None\<rparr>", OF a b c]
  have e: "snd (processMessage provider_ok db_ok rd1 store3 ''s1'' ''hola'' \<lparr>maxResults = None\<rparr>) ''s2'' = None"
    by (simp add: store3_def rd1_def session_at_def sessionTimeout_def)
  from processMessage_other_sessions [where S = store3 and sessionId = "''s1''" and other = "''s3''"
         and P = provider_ok and db = db_ok and message = "''hola''"
         and options = "\<lparr>maxResults = None\<rparr>", OF a b d]
  have f: "snd (processMessage provider_ok db_ok rd1 store3 ''s1'' ''hola'' \<lparr>maxResults = None\<rparr>) ''s3''
             = Some (session_at ''s3'' 4000000 [])"
    by (simp add: store3_def rd1_def session_at_def sessionTimeout_def)
  from a b c d e f show ?thesis by blast
qed

section \<open>Expired sessions\<close>

text \<open>
  C6, as stated, fails: \<open>exportSessionData\<close> reads the map without looking at
  \<open>lastActivity\<close>, so an expired session that is still stored is exported.
\<close>

theorem exportSessionData_expired_counterexample:
  "store3 ''s2'' = Some (session_at ''s2'' 0 []) \<and>
   5000000 - lastActivity (session_at ''s2'' 0 []) > sessionTimeout \<and>
   exportSessionData store3 ''s2'' \<noteq> None"
  by (simp add: store3_def session_at_def sessionTimeout_def exportSessionData_def)

text \<open>
  C6, amended. For a stored session with \<open>now - lastActivity > timeout\<close>: \<open>getSession\<close>
  returns not-found and deletes the entry; \<open>exportSessionData\<close> still returns the
  transcript while the entry is stored, and returns not-found once \<open>getSession\<close> or the
  sweep has removed it; after \<open>cleanExpiredSessions\<close> the session is absent.
\<close>

theorem expired_session_reads:
  assumes "S sessionId = Some session"
      and "now - lastActivity session > sessionTimeout"
  shows "getSession now S sessionId = (None, S(sessionId := None)) \<and>
         exportSessionData S sessionId \<noteq> None \<and>
         exportSessionData (snd (getSession now S sessionId)) sessionId = None \<and>
         cleanExpiredSessions now S sessionId = None \<and>
         exportSessionData (cleanExpiredSessions now S) sessionId = None"
  using assms
  by (simp add: getSession_def exportSessionData_def cleanExpiredSessions_def Let_def)

theorem expired_session_reads_witness:
  "store3 ''s2'' = Some (session_at ''s2'' 0 []) \<and>
   5000000 - lastActivity (session_at ''s2'' 0 []) > sessionTimeout \<and>
   getSession 5000000 store3 ''s2'' = (None, store3(''s2'' := None)) \<and>
   exportSessionData store3 ''s2'' \<noteq> None \<and>
   exportSessionData (snd (getSession 5000000 store3 ''s2'')) ''s2'' = None \<and>
   cleanExpiredSessions 5000000 store3 ''s2'' = None \<and>
   exportSessionData (cleanExpiredSessions 5000000 store3) ''s2'' = None"
proof -
  have a: "store3 ''s2'' = Some (session_at ''s2'' 0 [])"
    by (simp add: store3_def)
  have b: "5000000 - lastActivity (session_at ''s2'' 0 []) > sessionTimeout"
    by (simp add: session_at_def sessionTimeout_def)
  from a b expired_session_reads [where S = store3 and sessionId = "''s2''", OF a b]
  show ?thesis by blast
qed

section \<open>Ending a session twice\<close>

text \<open>
  C8. The claim is that \<open>endChatSession\<close> returns \<open>false\<close> on a session that has
  already been ended. The code sets \<open>isActive\<close> to \<open>false\<close> and never reads it: the
  second call on the same session, before it expires, returns \<open>true\<close> again.
\<close>

theorem endChatSession_repeated:
  "endChatSession 5000100 5000100 store3 ''s1'' =
     (True, store3(''s1'' \<mapsto> (session_at ''s1'' 5000000 [msg0])
                                \<lparr>isActive := False, endedAt := Some 5000100\<rparr>)) \<and>
   fst (endChatSession 5000200 5000200
          (store3(''s1'' \<mapsto> (session_at ''s1'' 5000000 [msg0])
                                \<lparr>isActive := False, endedAt := Some 5000100\<rparr>)) ''s1'') = True"
  by (simp add: endChatSession_def getSession_def store3_def session_at_def sessionTimeout_def)

section \<open>The chunker\<close>

lemma concat_split_sentences:
  "concat (split_sentences s) = filter (\<lambda>c. \<not> is_terminator c) s"
proof (induction s rule: split_sentences.induct)
  case (1 s)
  let ?P = "\<lambda>c. \<not> is_terminator c"
  let ?rest = "dropWhile ?P s"
  have s: "s = takeWhile ?P s @ ?rest" by simp
  have f1: "filter ?P (takeWhile ?P s) = takeWhile ?P s"
    by (auto simp: filter_id_conv dest: set_takeWhileD)
  show ?case
  proof (cases "?rest = []")
    case True
    then have "takeWhile ?P s = s" by (metis s append_Nil2)
    with True f1 show ?thesis by (subst split_sentences.simps) (simp add: Let_def)
  next
    case False
    have ih: "concat (split_sentences (dropWhile is_terminator ?rest))
                = filter ?P (dropWhile is_terminator ?rest)"
      using "1.IH" [OF refl refl False] .
    have "filter ?P ?rest = filter ?P (takeWhile is_terminator ?rest @ dropWhile is_terminator ?rest)"
      by simp
    also have "\<dots> = filter ?P (takeWhile is_terminator ?rest) @ filter ?P (dropWhile is_terminator ?rest)"
      by (rule filter_append)
    also have "filter ?P (takeWhile is_terminator ?rest) = []"
      by (auto simp: filter_empty_conv dest: set_takeWhileD)
    finally have f2: "filter ?P ?rest = filter ?P (dropWhile is_terminator ?rest)" by simp
    have "filter ?P s = filter ?P (takeWhile ?P s) @ filter ?P ?rest"
      by (metis filter_append s)
    with f1 f2 ih False show ?thesis
      by (subst split_sentences.simps) (auto simp: Let_def)
  qed
qed

lemma trim_prefix_suffix:
  "dropWhile is_ws s = trim s @ rev (takeWhile is_ws (rev (dropWhile is_ws s)))"
proof -
  let ?X = "rev (dropWhile is_ws s)"
  have "rev (dropWhile is_ws ?X) @ rev (takeWhile is_ws ?X)
          = rev (takeWhile is_ws ?X @ dropWhile is_ws ?X)"
    by (simp only: rev_append)
  also have "\<dots> = rev ?X"
    by (simp only: takeWhile_dropWhile_id)
  finally have "rev (dropWhile is_ws ?X) @ rev (takeWhile is_ws ?X) = dropWhile is_ws s"
    by (simp only: rev_rev_ident)
  then show ?thesis by (simp only: trim_def)
qed

lemma trim_hd: assumes "trim s \<noteq> []" shows "\<not> is_ws (hd (trim s))"
proof -
  from assms trim_prefix_suffix [of s] have "hd (dropWhile is_ws s) = hd (trim s)"
    by (metis hd_append2)
  moreover from assms trim_prefix_suffix [of s] have "dropWhile is_ws s \<noteq> []"
    by (metis append_is_Nil_conv)
  ultimately show ?thesis using hd_dropWhile [of is_ws s] by simp
qed

lemma trim_last: assumes "trim s \<noteq> []" shows "\<not> is_ws (last (trim s))"
proof -
  from assms have ne: "dropWhile is_ws (rev (dropWhile is_ws s)) \<noteq> []"
    by (simp add: trim_def)
  have "last (trim s) = hd (dropWhile is_ws (rev (dropWhile is_ws s)))"
    using ne by (simp add: trim_def last_rev)
  with hd_dropWhile [OF ne] show ?thesis by simp
qed

lemma sublist_dropWhile:
  assumes "x \<noteq> []" and "\<not> P (hd x)" and "sublist x ys"
  shows "sublist x (dropWhile P ys)"
proof -
  from assms(3) obtain ps ss where ys: "ys = ps @ x @ ss" by (auto simp: sublist_def)
  show ?thesis
  proof (cases "\<forall>p \<in> set ps. P p")
    case True
    then have "dropWhile P ys = dropWhile P (x @ ss)"
      by (simp add: ys dropWhile_append2)
    also have "\<dots> = x @ ss"
      using assms(1,2) by (cases x) simp_all
    finally show ?thesis by simp
  next
    case False
    then obtain p where "p \<in> set ps" "\<not> P p" by blast
    then have "dropWhile P ys = dropWhile P ps @ x @ ss"
      by (simp add: ys dropWhile_append1)
    then show ?thesis by simp
  qed
qed

lemma sublist_trim:
  assumes "x \<noteq> []" and "\<not> is_ws (hd x)" and "\<not> is_ws (last x)" and "sublist x ys"
  shows "sublist x (trim ys)"
proof -
  have a: "sublist x (dropWhile is_ws ys)"
    using assms(1,2,4) by (rule sublist_dropWhile)
  then have "sublist (rev x) (rev (dropWhile is_ws ys))" by simp
  moreover have "rev x \<noteq> []" using assms(1) by simp
  moreover have "\<not> is_ws (hd (rev x))" using assms(1,3) by (simp add: hd_rev)
  ultimately have "sublist (rev x) (dropWhile is_ws (rev (dropWhile is_ws ys)))"
    by (metis sublist_dropWhile)
  then show ?thesis unfolding trim_def by (metis sublist_rev rev_rev_ident)
qed

lemma chunk_loop_close:
  assumes "n + length (trim s) > chunkSize" and "cur \<noteq> []"
  shows "chunk_loop (s # rest) chunks cur n =
           chunk_loop rest (chunks @ [trim cur])
             (join_sp (slice_last (chunkOverlap div 6) (split_sp cur)) @ '' '' @ trim s)
             (length (join_sp (slice_last (chunkOverlap div 6) (split_sp cur)) @ '' ''
                        @ trim s))"
  using assms by (simp add: Let_def)

lemma chunk_loop_append:
  assumes "\<not> (n + length (trim s) > chunkSize \<and> cur \<noteq> [])"
  shows "chunk_loop (s # rest) chunks cur n =
           chunk_loop rest chunks (cur @ (if cur \<noteq> [] then '' '' else []) @ trim s)
             (length (cur @ (if cur \<noteq> [] then '' '' else []) @ trim s))"
proof (cases "cur = []")
  case True
  then show ?thesis by (simp add: Let_def)
next
  case False
  with assms have "\<not> n + length (trim s) > chunkSize" by simp
  with False show ?thesis by (simp add: Let_def)
qed

lemma join_sp_snoc: "xs \<noteq> [] \<Longrightarrow> join_sp (xs @ [y]) = join_sp xs @ '' '' @ y"
  by (induction xs rule: join_sp.induct) simp_all

lemma trim_nonblank: assumes "trim s \<noteq> []" shows "\<exists>c \<in> set (trim s). \<not> is_ws c"
  using assms trim_hd [OF assms] by (metis hd_in_set)

lemma trim_blank: assumes "trim s = []" shows "\<forall>c \<in> set s. is_ws c"
proof -
  let ?d = "dropWhile is_ws s"
  from assms have "dropWhile is_ws (rev ?d) = []" by (simp add: trim_def)
  then have all: "\<forall>x \<in> set ?d. is_ws x" by simp
  have "?d = []"
  proof (rule ccontr)
    assume ne: "?d \<noteq> []"
    then have "\<not> is_ws (hd ?d)" by (rule hd_dropWhile)
    moreover from ne have "hd ?d \<in> set ?d" by simp
    ultimately show False using all by blast
  qed
  then show ?thesis by simp
qed

lemma chain_start:
  assumes "trim s \<noteq> []"
  shows "chunk_chain [[s]] [trim s]"
  using trim_nonblank [OF assms] by simp

lemma chain_close:
  assumes "chunk_chain groups bufs" and "bufs \<noteq> []" and "trim s \<noteq> []"
  shows "chunk_chain (groups @ [[s]]) (bufs @ [overlap_seed (last bufs) @ '' '' @ trim s])"
proof (intro conjI)
  from assms(1) show "length (bufs @ [overlap_seed (last bufs) @ '' '' @ trim s])
                        = length (groups @ [[s]])" by simp
  from assms(1) show "\<forall>g \<in> set (groups @ [[s]]). g \<noteq> []" by simp
  from assms(1) trim_nonblank [OF assms(3)]
  show "\<forall>b \<in> set (bufs @ [overlap_seed (last bufs) @ '' '' @ trim s]). \<exists>c \<in> set b. \<not> is_ws c"
    by auto
  show "\<forall>i < length (groups @ [[s]]).
          (bufs @ [overlap_seed (last bufs) @ '' '' @ trim s]) ! i =
            (if i = 0 then []
             else overlap_seed ((bufs @ [overlap_seed (last bufs) @ '' '' @ trim s]) ! (i - 1))
                    @ '' '')
            @ join_sp (map trim ((groups @ [[s]]) ! i))"
  proof (intro allI impI)
    fix i assume i: "i < length (groups @ [[s]])"
    let ?bufs' = "bufs @ [overlap_seed (last bufs) @ '' '' @ trim s]"
    from assms(1) have len: "length bufs = length groups" by simp
    show "?bufs' ! i =
            (if i = 0 then [] else overlap_seed (?bufs' ! (i - 1)) @ '' '')
            @ join_sp (map trim ((groups @ [[s]]) ! i))"
    proof (cases "i < length groups")
      case True
      with assms(1) have "bufs ! i = (if i = 0 then [] else overlap_seed (bufs ! (i - 1)) @ '' '')
                     @ join_sp (map trim (groups ! i))" by blast
      moreover from True len have "i - 1 < length bufs" by simp
      ultimately show ?thesis using True len by (simp add: nth_append)
    next
      case False
      with i have eq: "i = length groups" by simp
      with len assms(2) have pos: "0 < i" by (cases bufs) auto
      from eq len pos have prev: "?bufs' ! (i - 1) = last bufs"
        using assms(2) by (simp add: nth_append last_conv_nth)
      from eq len have cur: "?bufs' ! i = overlap_seed (last bufs) @ '' '' @ trim s"
        by (simp add: nth_append)
      from eq have g: "(groups @ [[s]]) ! i = [s]" by (simp add: nth_append)
      from pos show ?thesis unfolding prev cur g by simp
    qed
  qed
qed

lemma chain_extend:
  assumes "chunk_chain (gs @ [g]) (bs @ [b])" and "trim s \<noteq> []"
  shows "chunk_chain (gs @ [g @ [s]]) (bs @ [b @ '' '' @ trim s])"
proof (intro conjI)
  from assms(1) have len: "length bs = length gs" by simp
  from assms(1) have gne: "g \<noteq> []" by simp
  from len show "length (bs @ [b @ '' '' @ trim s]) = length (gs @ [g @ [s]])" by simp
  from assms(1) show "\<forall>x \<in> set (gs @ [g @ [s]]). x \<noteq> []" by simp
  from assms(1) show "\<forall>x \<in> set (bs @ [b @ '' '' @ trim s]). \<exists>c \<in> set x. \<not> is_ws c"
    by auto
  show "\<forall>i < length (gs @ [g @ [s]]).
          (bs @ [b @ '' '' @ trim s]) ! i =
            (if i = 0 then []
             else overlap_seed ((bs @ [b @ '' '' @ trim s]) ! (i - 1)) @ '' '')
            @ join_sp (map trim ((gs @ [g @ [s]]) ! i))"
  proof (intro allI impI)
    fix i assume i: "i < length (gs @ [g @ [s]])"
    then have i': "i < length (gs @ [g])" by simp
    with assms(1) have old: "(bs @ [b]) ! i =
            (if i = 0 then [] else overlap_seed ((bs @ [b]) ! (i - 1)) @ '' '')
            @ join_sp (map trim ((gs @ [g]) ! i))" by blast
    show "(bs @ [b @ '' '' @ trim s]) ! i =
            (if i = 0 then []
             else overlap_seed ((bs @ [b @ '' '' @ trim s]) ! (i - 1)) @ '' '')
            @ join_sp (map trim ((gs @ [g @ [s]]) ! i))"
    proof (cases "i < length gs")
      case True
      then have "i - 1 < length bs" using len by simp
      with True len old show ?thesis by (simp add: nth_append)
    next
      case False
      with i have eq: "i = length gs" by simp
      have prev: "i \<noteq> 0 \<Longrightarrow> (bs @ [b @ '' '' @ trim s]) ! (i - 1) = (bs @ [b]) ! (i - 1)"
        using eq len by (simp add: nth_append)
      from eq len old have b: "b = (if i = 0 then [] else overlap_seed ((bs @ [b]) ! (i - 1)) @ '' '')
            @ join_sp (map trim g)" by (simp add: nth_append)
      have "join_sp (map trim (g @ [s])) = join_sp (map trim g) @ '' '' @ trim s"
        using gne join_sp_snoc [of "map trim g" "trim s"] by simp
      with b have "b @ '' '' @ trim s =
            (if i = 0 then [] else overlap_seed ((bs @ [b]) ! (i - 1)) @ '' '')
            @ join_sp (map trim (g @ [s]))" by simp
      with eq len prev show ?thesis by (simp add: nth_append)
    qed
  qed
qed

lemma chunk_loop_groups:
  assumes "chunk_loop ss chunks cur n = (chunks', cur', n')"
      and "\<forall>s \<in> set ss. trim s \<noteq> []"
      and "chunk_chain groups bufs"
      and "chunks = map trim (butlast bufs)"
      and "cur = (if bufs = [] then [] else last bufs)"
  shows "\<exists>groups' bufs'. chunk_chain groups' bufs' \<and> concat groups' = concat groups @ ss \<and>
           chunks' = map trim (butlast bufs') \<and>
           cur' = (if bufs' = [] then [] else last bufs')"
  using assms
proof (induction ss arbitrary: chunks cur n groups bufs)
  case Nil
  from Nil.prems(1) have "chunks' = chunks" and "cur' = cur" by simp_all
  with Nil.prems(4,5) have k: "chunks' = map trim (butlast bufs)"
    and c: "cur' = (if bufs = [] then [] else last bufs)" by simp_all
  have "concat groups = concat groups @ []" by simp
  with Nil.prems(3) k c show ?case by blast
next
  case (Cons s rest)
  from Cons.prems(2) have s: "trim s \<noteq> []" and rest: "\<forall>s \<in> set rest. trim s \<noteq> []"
    by simp_all
  note chain = Cons.prems(3)
  have len: "length bufs = length groups" by (rule chain [THEN conjunct1])
  have nonws: "\<forall>b \<in> set bufs. \<exists>c \<in> set b. \<not> is_ws c"
    by (rule chain [THEN conjunct2, THEN conjunct2, THEN conjunct1])
  show ?case
  proof (cases "n + length (trim s) > chunkSize \<and> cur \<noteq> []")
    case True
    then have big: "n + length (trim s) > chunkSize" and ne: "cur \<noteq> []" by simp_all
    from ne Cons.prems(5) have bne: "bufs \<noteq> []" and cur: "cur = last bufs"
      by (auto split: if_splits)
    let ?next = "overlap_seed cur @ '' '' @ trim s"
    from Cons.prems(1) chunk_loop_close [OF big ne]
    have run: "chunk_loop rest (chunks @ [trim cur]) ?next (length ?next) = (chunks', cur', n')"
      by simp
    let ?groups = "groups @ [[s]]"
    let ?bufs = "bufs @ [overlap_seed (last bufs) @ '' '' @ trim s]"
    have c2: "chunk_chain ?groups ?bufs" using chain bne s by (rule chain_close)
    have "map trim (butlast bufs) @ [trim (last bufs)] = map trim (butlast bufs @ [last bufs])"
      by simp
    also have "\<dots> = map trim bufs" using bne by simp
    finally have k2: "chunks @ [trim cur] = map trim (butlast ?bufs)"
      using Cons.prems(4) cur by (simp add: butlast_append)
    have n2: "?next = (if ?bufs = [] then [] else last ?bufs)"
      using cur by simp
    from Cons.IH [OF run rest c2 k2 n2] obtain groups' bufs' where
      r: "chunk_chain groups' bufs'"
      and r2: "concat groups' = concat ?groups @ rest"
      and r3: "chunks' = map trim (butlast bufs')"
      and r4: "cur' = (if bufs' = [] then [] else last bufs')"
      by blast
    from r2 have "concat groups' = concat groups @ s # rest" by simp
    with r r3 r4 show ?thesis by blast
  next
    case False
    let ?next = "cur @ (if cur \<noteq> [] then '' '' else []) @ trim s"
    from Cons.prems(1) chunk_loop_append [OF False]
    have run: "chunk_loop rest chunks ?next (length ?next) = (chunks', cur', n')"
      by simp
    show ?thesis
    proof (cases "bufs = []")
      case True
      with len have g: "groups = []" by simp
      from True Cons.prems(5) have cur: "cur = []" by simp
      have c2: "chunk_chain [[s]] [trim s]" using s by (rule chain_start)
      have k2: "chunks = map trim (butlast [trim s])" using Cons.prems(4) True by simp
      have n2: "?next = (if [trim s] = [] then [] else last [trim s])" using cur by simp
      from Cons.IH [OF run rest c2 k2 n2] obtain groups' bufs' where
        r: "chunk_chain groups' bufs'"
        and r2: "concat groups' = concat [[s]] @ rest"
        and r3: "chunks' = map trim (butlast bufs')"
        and r4: "cur' = (if bufs' = [] then [] else last bufs')"
        by blast
      from r2 g have "concat groups' = concat groups @ s # rest" by simp
      with r r3 r4 show ?thesis by blast
    next
      case bne: False
      with len have gne: "groups \<noteq> []" by auto
      from bne Cons.prems(5) have cur: "cur = last bufs" by simp
      from nonws bne have "\<exists>c \<in> set (last bufs). \<not> is_ws c" by simp
      with cur have cne: "cur \<noteq> []" by auto
      have "chunk_chain (butlast groups @ [last groups]) (butlast bufs @ [last bufs])"
        unfolding append_butlast_last_id [OF bne] append_butlast_last_id [OF gne]
        by (rule chain)
      from chain_extend [OF this s]
      have c2: "chunk_chain (butlast groups @ [last groups @ [s]])
                  (butlast bufs @ [last bufs @ '' '' @ trim s])" .
      have k2: "chunks = map trim (butlast (butlast bufs @ [last bufs @ '' '' @ trim s]))"
        using Cons.prems(4) by (simp add: butlast_append)
      have n2: "?next = (if butlast bufs @ [last bufs @ '' '' @ trim s] = [] then []
                         else last (butlast bufs @ [last bufs @ '' '' @ trim s]))"
        using cur cne by simp
      from Cons.IH [OF run rest c2 k2 n2] obtain groups' bufs' where
        r: "chunk_chain groups' bufs'"
        and r2: "concat groups' = concat (butlast groups @ [last groups @ [s]]) @ rest"
        and r3: "chunks' = map trim (butlast bufs')"
        and r4: "cur' = (if bufs' = [] then [] else last bufs')"
        by blast
      have "concat (butlast groups @ [last groups @ [s]]) = concat (butlast groups @ [last groups]) @ [s]"
        by simp
      also have "\<dots> = concat groups @ [s]"
        by (simp only: append_butlast_last_id [OF gne])
      finally have "concat groups' = concat groups @ s # rest" using r2 by simp
      with r r3 r4 show ?thesis by blast
    qed
  qed
qed

lemma raw_chunks_groups:
  "\<exists>groups bufs. chunk_chain groups bufs \<and> concat groups = sentences_of t \<and>
     raw_chunks t = map trim bufs"
proof -
  obtain chunks' cur' n' where
    run: "chunk_loop (sentences_of t) [] [] 0 = (chunks', cur', n')"
    by (cases "chunk_loop (sentences_of t) [] [] 0") auto
  have nb: "\<forall>s \<in> set (sentences_of t). trim s \<noteq> []"
    by (simp add: sentences_of_def)
  have c0: "chunk_chain [] []" by simp
  have k0: "[] = map trim (butlast ([] :: string list))" by simp
  have n0: "[] = (if ([] :: string list) = [] then [] else last [])" by simp
  from chunk_loop_groups [OF run nb c0 k0 n0] obtain groups bufs where
    chain: "chunk_chain groups bufs" and cat: "concat groups = sentences_of t"
    and k: "chunks' = map trim (butlast bufs)"
    and c: "cur' = (if bufs = [] then [] else last bufs)"
    by auto
  have "raw_chunks t = map trim bufs"
  proof (cases "bufs = []")
    case True
    with k c show ?thesis by (simp add: raw_chunks_def run trim_def)
  next
    case False
    with c have cur: "cur' = last bufs" by simp
    from chain [THEN conjunct2, THEN conjunct2, THEN conjunct1] False
    have "\<exists>x \<in> set (last bufs). \<not> is_ws x" by simp
    with trim_blank [of "last bufs"] have "trim (last bufs) \<noteq> []" by blast
    with cur have "raw_chunks t = map trim (butlast bufs) @ [trim (last bufs)]"
      by (simp add: raw_chunks_def run k)
    also have "\<dots> = map trim (butlast bufs @ [last bufs])" by simp
    also have "\<dots> = map trim bufs" using False by simp
    finally show ?thesis .
  qed
  with chain cat show ?thesis by blast
qed

lemma chunk_loop_cover:
  assumes "chunk_loop ss chunks cur n = (chunks', cur', n')"
      and "x \<noteq> []" and "\<not> is_ws (hd x)" and "\<not> is_ws (last x)"
      and "sublist x cur \<or> (\<exists>c \<in> set chunks. sublist x c) \<or> (\<exists>s \<in> set ss. x = trim s)"
  shows "(\<exists>c \<in> set chunks'. sublist x c) \<or> sublist x cur'"
  using assms
proof (induction ss arbitrary: chunks cur n)
  case Nil
  then show ?case by auto
next
  case (Cons s rest)
  show ?case
  proof (cases "n + length (trim s) > chunkSize \<and> cur \<noteq> []")
    case True
    let ?next = "join_sp (slice_last (chunkOverlap div 6) (split_sp cur)) @ '' '' @ trim s"
    from True have "n + length (trim s) > chunkSize" and "cur \<noteq> []" by simp_all
    from Cons.prems(1) chunk_loop_close [OF this]
    have run: "chunk_loop rest (chunks @ [trim cur]) ?next (length ?next) = (chunks', cur', n')"
      by simp
    have "sublist x ?next \<or> (\<exists>c \<in> set (chunks @ [trim cur]). sublist x c)
            \<or> (\<exists>s \<in> set rest. x = trim s)"
    proof -
      from Cons.prems(5) consider "sublist x cur" | "\<exists>c \<in> set chunks. sublist x c"
        | "x = trim s" | "\<exists>s \<in> set rest. x = trim s" by auto
      then show ?thesis
      proof cases
        case 1
        with Cons.prems(2,3,4) have "sublist x (trim cur)" by (metis sublist_trim)
        then show ?thesis by simp
      next
        case 2 then show ?thesis by auto
      next
        case 3
        have "sublist (trim s) ?next"
          using sublist_append_leftI [of "trim s" "join_sp (slice_last (chunkOverlap div 6) (split_sp cur)) @ '' ''"]
          by simp
        with 3 show ?thesis by simp
      next
        case 4 then show ?thesis by simp
      qed
    qed
    from Cons.IH [OF run Cons.prems(2,3,4) this] show ?thesis .
  next
    case False
    let ?next = "cur @ (if cur \<noteq> [] then '' '' else []) @ trim s"
    from Cons.prems(1) chunk_loop_append [OF False]
    have run: "chunk_loop rest chunks ?next (length ?next) = (chunks', cur', n')"
      by simp
    have "sublist x ?next \<or> (\<exists>c \<in> set chunks. sublist x c) \<or> (\<exists>s \<in> set rest. x = trim s)"
    proof -
      from Cons.prems(5) consider "sublist x cur" | "\<exists>c \<in> set chunks. sublist x c"
        | "x = trim s" | "\<exists>s \<in> set rest. x = trim s" by auto
      then show ?thesis
      proof cases
        case 1
        then obtain ps ss where "cur = ps @ x @ ss" by (auto simp: sublist_def)
        then have "?next = ps @ x @ (ss @ (if cur \<noteq> [] then '' '' else []) @ trim s)"
          by simp
        then have "sublist x ?next" by (metis sublist_appendI)
        then show ?thesis by simp
      next
        case 2 then show ?thesis by simp
      next
        case 3
        have "sublist (trim s) ?next"
          using sublist_append_leftI [of "trim s" "cur @ (if cur \<noteq> [] then '' '' else [])"]
          by simp
        with 3 show ?thesis by simp
      next
        case 4 then show ?thesis by simp
      qed
    qed
    from Cons.IH [OF run Cons.prems(2,3,4) this] show ?thesis .
  qed
qed

lemma raw_chunks_cover:
  assumes "s \<in> set (sentences_of t)"
  shows "\<exists>c \<in> set (raw_chunks t). sublist (trim s) c"
proof -
  from assms have ne: "trim s \<noteq> []" by (simp add: sentences_of_def)
  obtain chunks' cur' n' where
    run: "chunk_loop (sentences_of t) [] [] 0 = (chunks', cur', n')"
    by (cases "chunk_loop (sentences_of t) [] [] 0") auto
  have "sublist (trim s) [] \<or> (\<exists>c \<in> set []. sublist (trim s) c)
          \<or> (\<exists>s' \<in> set (sentences_of t). trim s = trim s')"
    using assms by blast
  from chunk_loop_cover [OF run ne trim_hd [OF ne] trim_last [OF ne] this]
  consider "\<exists>c \<in> set chunks'. sublist (trim s) c" | "sublist (trim s) cur'" by blast
  then show ?thesis
  proof cases
    case 1
    then show ?thesis by (auto simp: raw_chunks_def run)
  next
    case 2
    with ne have sub: "sublist (trim s) (trim cur')"
      by (metis sublist_trim trim_hd trim_last)
    with ne have "trim cur' \<noteq> []" by auto
    with sub show ?thesis by (auto simp: raw_chunks_def run)
  qed
qed

lemma raw_chunks_long:
  "raw_chunks long_text = [long_chunk, long_seed @ '' Otra frase mas larga aqui'']"
  by code_simp

lemma length_long_seed: "length long_seed = 323"
  by code_simp

lemma length_long_chunk: "length long_chunk = 1103"
  by code_simp

lemma createChunks_long:
  "createChunks long_text = [long_chunk, long_seed @ '' Otra frase mas larga aqui'']"
  by (simp add: createChunks_def raw_chunks_long length_long_chunk length_long_seed)

lemma long_seed_suffix: "suffix long_seed long_chunk"
proof -
  have "replicate 110 ''documento '' = replicate 78 ''documento '' @ replicate 32 ''documento ''"
    by (simp add: replicate_add [symmetric])
  then have "long_chunk = concat (replicate 78 ''documento '') @ long_seed"
    by (simp add: long_chunk_def long_seed_def)
  then show ?thesis unfolding suffix_def by blast
qed

lemma trim_otra: "trim '' Otra frase mas larga aqui'' = ''Otra frase mas larga aqui''"
  by (simp add: trim_def is_ws_def)

text \<open>
  C4, as stated, fails. The text is a sentence of 110 times the word \<open>documento\<close> and the
  word \<open>fin\<close>, then a second sentence. The second chunk starts with the last 33 words
  of the first, 323 characters, which is more than the 200 of \<open>chunkOverlap\<close>: the seed
  is counted in words. And the full stops of the text are in no chunk.
\<close>

theorem createChunks_overlap_counterexample:
  "createChunks long_text = [long_chunk, long_seed @ '' Otra frase mas larga aqui''] \<and>
   suffix long_seed long_chunk \<and>
   length long_seed = 323 \<and>
   chunkOverlap < length long_seed \<and>
   CHR ''.'' \<in> set long_text \<and>
   CHR ''.'' \<notin> set (concat (createChunks long_text))"
proof -
  have a: "CHR ''.'' \<in> set long_text"
    by (simp add: long_text_def)
  have b: "CHR ''.'' \<notin> set long_chunk" "CHR ''.'' \<notin> set long_seed"
    by (auto simp: long_chunk_def long_seed_def)
  from a b show ?thesis
    by (simp add: createChunks_long long_seed_suffix length_long_seed chunkOverlap_def)
qed

lemma sentences_of_long:
  "sentences_of long_text = [long_chunk, '' Otra frase mas larga aqui'']"
  by code_simp

lemma long_overlap_seed:
  "slice_last (chunkOverlap div 6) (split_sp long_chunk) = replicate 32 ''documento'' @ [''fin'']"
  by code_simp

lemma long_seed_join: "join_sp (replicate 32 ''documento'' @ [''fin'']) = long_seed"
  by code_simp

text \<open>
  C4, amended. For every text: every returned chunk is longer than 50 characters, and
  the returned chunks are exactly the chunks built by the loop that are longer than 50,
  wherever they stand. The pieces between the runs of terminators hold every character
  of the text that is not a terminator, and every piece that is not blank occurs,
  trimmed, as a contiguous part of some chunk built by the loop. The chunks built by the
  loop are the trimmed buffers of consecutive, non-empty groups of the non-blank pieces:
  the first buffer is its group's trimmed pieces joined by single spaces, and every later
  buffer is the last 33 (200 div 6) space-separated words of the buffer before it, joined
  by single spaces, then a space, then its own group joined in the same way. The overlap
  is thus exactly these at most 33 words, whatever their length in characters.
\<close>

theorem createChunks_properties:
  "(\<forall>c \<in> set (createChunks t). length c > 50 \<and> c \<in> set (raw_chunks t)) \<and>
   (\<forall>c \<in> set (raw_chunks t). length c > 50 \<longrightarrow> c \<in> set (createChunks t)) \<and>
   concat (split_sentences t) = filter (\<lambda>c. \<not> is_terminator c) t \<and>
   (\<forall>s \<in> set (split_sentences t). trim s \<noteq> [] \<longrightarrow>
        (\<exists>c \<in> set (raw_chunks t). sublist (trim s) c)) \<and>
   (\<exists>groups bufs.
        concat groups = sentences_of t \<and> (\<forall>g \<in> set groups. g \<noteq> []) \<and>
        length bufs = length groups \<and> raw_chunks t = map trim bufs \<and>
        (\<forall>i < length groups.
           bufs ! i =
             (if i = 0 then []
              else join_sp (slice_last (chunkOverlap div 6) (split_sp (bufs ! (i - 1)))) @ '' '')
             @ join_sp (map trim (groups ! i)))) \<and>
   chunkOverlap div 6 = 33 \<and>
   (\<forall>b. length (slice_last (chunkOverlap div 6) (split_sp b)) \<le> 33 \<and>
        suffix (slice_last (chunkOverlap div 6) (split_sp b)) (split_sp b))"
proof (intro conjI)
  show "\<forall>c \<in> set (createChunks t). length c > 50 \<and> c \<in> set (raw_chunks t)"
    by (simp add: createChunks_def)
  show "\<forall>c \<in> set (raw_chunks t). length c > 50 \<longrightarrow> c \<in> set (createChunks t)"
    by (simp add: createChunks_def)
  show "concat (split_sentences t) = filter (\<lambda>c. \<not> is_terminator c) t"
    by (rule concat_split_sentences)
  show "\<forall>s \<in> set (split_sentences t). trim s \<noteq> [] \<longrightarrow>
          (\<exists>c \<in> set (raw_chunks t). sublist (trim s) c)"
  proof (intro ballI impI)
    fix s assume "s \<in> set (split_sentences t)" and "trim s \<noteq> []"
    then have "s \<in> set (sentences_of t)" by (simp add: sentences_of_def)
    then show "\<exists>c \<in> set (raw_chunks t). sublist (trim s) c" by (rule raw_chunks_cover)
  qed
  from raw_chunks_groups [of t]
  show "\<exists>groups bufs.
        concat groups = sentences_of t \<and> (\<forall>g \<in> set groups. g \<noteq> []) \<and>
        length bufs = length groups \<and> raw_chunks t = map trim bufs \<and>
        (\<forall>i < length groups.
           bufs ! i =
             (if i = 0 then []
              else join_sp (slice_last (chunkOverlap div 6) (split_sp (bufs ! (i - 1)))) @ '' '')
             @ join_sp (map trim (groups ! i)))"
    by blast
  show "chunkOverlap div 6 = 33" by (simp add: chunkOverlap_def)
  show "\<forall>b. length (slice_last (chunkOverlap div 6) (split_sp b)) \<le> 33 \<and>
        suffix (slice_last (chunkOverlap div 6) (split_sp b)) (split_sp b)"
    by (auto simp: slice_last_def chunkOverlap_def suffix_drop)
qed

theorem createChunks_properties_witness:
  "createChunks long_text = [long_chunk, long_seed @ '' Otra frase mas larga aqui''] \<and>
   length long_chunk > 50 \<and>
   length (long_seed @ '' Otra frase mas larga aqui'') > 50 \<and>
   '' Otra frase mas larga aqui'' \<in> set (split_sentences long_text) \<and>
   trim '' Otra frase mas larga aqui'' \<noteq> [] \<and>
   (\<exists>c. c \<in> set (raw_chunks long_text) \<and> sublist (trim '' Otra frase mas larga aqui'') c) \<and>
   sentences_of long_text = [long_chunk, '' Otra frase mas larga aqui''] \<and>
   (\<exists>groups bufs.
        concat groups = [long_chunk, '' Otra frase mas larga aqui''] \<and>
        length bufs = length groups \<and>
        [long_chunk, long_seed @ '' Otra frase mas larga aqui''] = map trim bufs) \<and>
   slice_last (chunkOverlap div 6) (split_sp long_chunk) = replicate 32 ''documento'' @ [''fin''] \<and>
   join_sp (replicate 32 ''documento'' @ [''fin'']) = long_seed \<and>
   length (replicate 32 ''documento'' @ [''fin'']) = 33"
proof -
  note t = createChunks_properties [of long_text]
  note so = sentences_of_long
  have "'' Otra frase mas larga aqui'' \<in> set (sentences_of long_text)"
    by (simp add: so)
  then have a: "'' Otra frase mas larga aqui'' \<in> set (split_sentences long_text)"
    by (simp add: sentences_of_def)
  have b: "trim '' Otra frase mas larga aqui'' \<noteq> []"
    by (simp add: trim_otra)
  from t have "\<forall>c \<in> set (createChunks long_text). length c > 50" by blast
  then have d: "length long_chunk > 50"
    and e: "length (long_seed @ '' Otra frase mas larga aqui'') > 50"
    by (simp_all add: createChunks_long)
  from t a b have f: "\<exists>c. c \<in> set (raw_chunks long_text) \<and>
                       sublist (trim '' Otra frase mas larga aqui'') c"
    by blast
  from t have "\<exists>groups bufs.
        concat groups = sentences_of long_text \<and>
        length bufs = length groups \<and> raw_chunks long_text = map trim bufs"
    by blast
  then have g: "\<exists>groups bufs.
        concat groups = [long_chunk, '' Otra frase mas larga aqui''] \<and>
        length bufs = length groups \<and>
        [long_chunk, long_seed @ '' Otra frase mas larga aqui''] = map trim bufs"
    by (simp add: so raw_chunks_long)
  have h: "length (replicate 32 ''documento'' @ [''fin'']) = 33" by simp
  from createChunks_long a b d e f so g long_overlap_seed long_seed_join h
  show ?thesis by blast
qed

section \<open>Ingestion: the document id and the temporary file\<close>

lemma createChunks_ex:
  "createChunks doc_text =
     [''Las devoluciones se aceptan en 30 dias Guarde el recibo de compra Gracias'']"
  by code_simp

lemma trim_doc_text: "length (trim doc_text) = 76"
  by code_simp

lemma world0_simps:
  "w_fs world0 ''uploads/tmp-1'' = Some doc_text" "w_fs world0 ''uploads/tmp-2'' = Some ''MZ''"
  "w_upserts world0 = []"
  by (simp_all add: world0_def)

lemma file_simps:
  "originalname file1 = ''devoluciones.txt''" "path file1 = ''uploads/tmp-1''" "size file1 = 76"
  "originalname file2 = ''notas.exe''" "path file2 = ''uploads/tmp-2''" "size file2 = 2"
  by (simp_all add: file1_def file2_def)

lemma extractText_ex: "extractText libs (w_fs world0) file1 = Inr doc_text"
  by (simp add: extractText_def libs_def file_simps extractFromText_def readFile_def
      world0_simps)

lemma show_nat_0: "show_nat 0 = ''0''"
  by (simp add: show_nat.simps)

text \<open>
  C5. The claim is that the \<open>documentId\<close> of the result is the one in every upserted
  entry, also when it is generated. The code calls \<open>uuidv4()\<close> once in
  \<open>generateVectorData\<close> and once more for the result, so without a caller-supplied id
  the two differ: here the entry is \<open>uuid-1_chunk_0\<close> of document \<open>uuid-1\<close> and the
  result names document \<open>uuid-2\<close>.
\<close>

theorem processDocument_documentId_differs:
  "fst (processDocument libs provider_ok db_ok ''uuid-1'' ''uuid-2'' (\<lambda>i. 7000) 7001
          world0 file1 md_route) =
     Inr \<lparr>r_documentId = ''uuid-2'', r_filename = ''devoluciones.txt'', r_fileSize = 76,
           r_chunksCreated = 1, r_status = ''processed'', r_processedAt = 7001\<rparr> \<and>
   map (map (\<lambda>v. (ve_id v, md_documentId (ve_metadata v))))
     (w_upserts (snd (processDocument libs provider_ok db_ok ''uuid-1'' ''uuid-2''
                        (\<lambda>i. 7000) 7001 world0 file1 md_route))) =
     [[(''uuid-1_chunk_0'', ''uuid-1'')]] \<and>
   ''uuid-2'' \<noteq> ''uuid-1''"
  by (simp add: processDocument_def extractText_ex trim_doc_text createChunks_ex
      generateVectorData_def generateBatchEmbeddings_def provider_ok_def or_uuid_def
      md_route_def upsertVectors_def db_ok_def show_nat_0 nth_opt_def unlink_def
      world0_simps file_simps)

text \<open>
  C9. The claim is that the temporary file is removed on success and on failure. The
  code calls \<open>fs.unlink\<close> only after the upsert has succeeded: when extraction fails
  (an unsupported extension), or when the embedding call fails, the error is rethrown
  and the file is still there. The last conjunct is the successful run, which removes it.
\<close>

theorem processDocument_failure_keeps_file:
  "processDocument libs provider_ok db_ok ''uuid-1'' ''uuid-2'' (\<lambda>i. 7000) 7001
     world0 file2 md_route = (Inl (UnsupportedType ''exe''), world0) \<and>
   w_fs world0 (path file2) = Some ''MZ'' \<and>
   processDocument libs provider_no_embeddings db_ok ''uuid-1'' ''uuid-2'' (\<lambda>i. 7000) 7001
     world0 file1 md_route = (Inl (EmbeddingError (ProviderFailure ''429'')), world0) \<and>
   w_fs world0 (path file1) = Some doc_text \<and>
   w_fs (snd (processDocument libs provider_ok db_ok ''uuid-1'' ''uuid-2'' (\<lambda>i. 7000) 7001
                world0 file1 md_route)) (path file1) = None"
proof -
  have a: "processDocument libs provider_ok db_ok ''uuid-1'' ''uuid-2'' (\<lambda>i. 7000) 7001
     world0 file2 md_route = (Inl (UnsupportedType ''exe''), world0)"
    by (simp add: processDocument_def extractText_def libs_def file_simps)
  have b: "w_fs world0 (path file2) = Some ''MZ''"
    by (simp add: world0_simps file_simps)
  have c: "processDocument libs provider_no_embeddings db_ok ''uuid-1'' ''uuid-2''
     (\<lambda>i. 7000) 7001 world0 file1 md_route
       = (Inl (EmbeddingError (ProviderFailure ''429'')), world0)"
    by (simp add: processDocument_def extractText_ex trim_doc_text createChunks_ex
        generateVectorData_def generateBatchEmbeddings_def provider_no_embeddings_def)
  have d: "w_fs world0 (path file1) = Some doc_text"
    by (simp add: world0_simps file_simps)
  have e: "w_fs (snd (processDocument libs provider_ok db_ok ''uuid-1'' ''uuid-2''
                (\<lambda>i. 7000) 7001 world0 file1 md_route)) (path file1) = None"
    by (simp add: processDocument_def extractText_ex trim_doc_text createChunks_ex
      generateVectorData_def generateBatchEmbeddings_def provider_ok_def or_uuid_def
      md_route_def upsertVectors_def db_ok_def unlink_def world0_simps file_simps Let_def)
  from a b c d e show ?thesis by blast
qed

end
